theory Spec2Isabelle
  imports Main "HOL-Library.Word" "HOL-Library.Signed_Division"
begin

section \<open>Bytes, errors and readers\<close>

text \<open>
  The account store of lightning-terminal persists an account as a TLV stream
  (\<^verbatim>\<open>accounts/tlv.go\<close>), built with the \<^verbatim>\<open>tlv\<close> package of lnd. A byte is
  an 8-bit word, \<^verbatim>\<open>uint64\<close> a 64-bit word. An \<^verbatim>\<open>io.Reader\<close> over a byte slice is
  the list of the bytes not read yet; a \<^verbatim>\<open>bytes.Buffer\<close> written to is the list
  of the bytes written, and writing to it never fails.
\<close>

type_synonym byte = "8 word"
type_synonym uint64 = "64 word"

datatype error =
    ErrNilAccount            \<comment> \<open>\<^verbatim>\<open>account cannot be nil\<close>\<close>
  | EOF                      \<comment> \<open>\<^verbatim>\<open>io.EOF\<close>\<close>
  | ErrUnexpectedEOF         \<comment> \<open>\<^verbatim>\<open>io.ErrUnexpectedEOF\<close>\<close>
  | ErrStreamNotCanonical
  | ErrVarIntNotCanonical
  | ErrTypeForDecoding       \<comment> \<open>\<^verbatim>\<open>tlv.NewTypeForDecodingErr\<close>: wrong length for the type\<close>
  | ErrNilPointer            \<comment> \<open>the panic of dereferencing a nil \<^verbatim>\<open>*PaymentEntry\<close>\<close>
  | ErrNoProgress            \<comment> \<open>a decoder returned a reader that is not shorter (no Go reader does)\<close>

subsection \<open>binary.BigEndian\<close>

text \<open>\<^verbatim>\<open>PutUintN\<close> writes the value most significant byte first; \<^verbatim>\<open>UintN\<close> reads it.\<close>

fun be_put :: "nat \<Rightarrow> nat \<Rightarrow> byte list" where
  "be_put 0 v = []"
| "be_put (Suc n) v = be_put n (v div 256) @ [of_nat (v mod 256)]"

definition be_get :: "byte list \<Rightarrow> nat" where
  "be_get bs = foldl (\<lambda>acc b. acc * 256 + unat b) 0 bs"

definition PutUint16 :: "16 word \<Rightarrow> byte list" where
  "PutUint16 v = be_put 2 (unat v)"

definition PutUint32 :: "32 word \<Rightarrow> byte list" where
  "PutUint32 v = be_put 4 (unat v)"

definition PutUint64 :: "uint64 \<Rightarrow> byte list" where
  "PutUint64 v = be_put 8 (unat v)"

definition Uint16 :: "byte list \<Rightarrow> 16 word" where
  "Uint16 bs = of_nat (be_get bs)"

definition Uint32 :: "byte list \<Rightarrow> 32 word" where
  "Uint32 bs = of_nat (be_get bs)"

definition Uint64 :: "byte list \<Rightarrow> uint64" where
  "Uint64 bs = of_nat (be_get bs)"

subsection \<open>io.ReadFull\<close>

text \<open>
  \<^verbatim>\<open>io.ReadFull(r, buf[:n])\<close>: \<^verbatim>\<open>io.EOF\<close> when no byte could be read,
  \<^verbatim>\<open>io.ErrUnexpectedEOF\<close> when fewer than \<open>n\<close> were; reading zero bytes succeeds.
\<close>

definition ReadFull :: "nat \<Rightarrow> byte list \<Rightarrow> error + (byte list \<times> byte list)" where
  "ReadFull n r =
     (if n = 0 then Inr ([], r)
      else if r = [] then Inl EOF
      else if length r < n then Inl ErrUnexpectedEOF
      else Inr (take n r, drop n r))"

text \<open>An \<^verbatim>\<open>io.EOF\<close> inside a record is reported as \<^verbatim>\<open>io.ErrUnexpectedEOF\<close>.\<close>

definition eofToUnexpected :: "error \<Rightarrow> error" where
  "eofToUnexpected e = (if e = EOF then ErrUnexpectedEOF else e)"

section \<open>The tlv package: varints and primitive codecs\<close>

definition WriteVarInt :: "uint64 \<Rightarrow> byte list" where
  "WriteVarInt val =
     (if val < 0xfd then [ucast val]
      else if val \<le> 0xffff then 0xfd # PutUint16 (ucast val)
      else if val \<le> 0xffffffff then 0xfe # PutUint32 (ucast val)
      else 0xff # PutUint64 val)"

definition ReadVarInt :: "byte list \<Rightarrow> error + (uint64 \<times> byte list)" where
  "ReadVarInt r =
     (case ReadFull 1 r of
        Inl e \<Rightarrow> Inl e
      | Inr (b, r1) \<Rightarrow>
          (let discriminant = be_get b in
           if discriminant < 0xfd then Inr (of_nat discriminant, r1)
           else if discriminant = 0xfd then
             (case ReadFull 2 r1 of
                Inl e \<Rightarrow> Inl (eofToUnexpected e)
              | Inr (bs, r2) \<Rightarrow>
                  (let rv = (ucast (Uint16 bs) :: uint64) in
                   if rv < 0xfd then Inl ErrVarIntNotCanonical else Inr (rv, r2)))
           else if discriminant = 0xfe then
             (case ReadFull 4 r1 of
                Inl e \<Rightarrow> Inl (eofToUnexpected e)
              | Inr (bs, r2) \<Rightarrow>
                  (let rv = (ucast (Uint32 bs) :: uint64) in
                   if rv \<le> 0xffff then Inl ErrVarIntNotCanonical else Inr (rv, r2)))
           else
             (case ReadFull 8 r1 of
                Inl e \<Rightarrow> Inl (eofToUnexpected e)
              | Inr (bs, r2) \<Rightarrow>
                  (let rv = Uint64 bs in
                   if rv \<le> 0xffffffff then Inl ErrVarIntNotCanonical else Inr (rv, r2)))))"

text \<open>
  The primitive encoders write into a buffer, so they only produce bytes. The
  primitive decoders take the reader and the length \<open>l\<close> announced by the record
  and refuse a length other than the one of their type. The type assertions on
  \<^verbatim>\<open>val\<close> (and the errors of their failure) are the types of the arguments here.
\<close>

definition EUint8 :: "byte \<Rightarrow> byte list" where
  "EUint8 i = [i]"

definition EUint64 :: "uint64 \<Rightarrow> byte list" where
  "EUint64 i = PutUint64 i"

definition EUint64T :: "uint64 \<Rightarrow> byte list" where
  "EUint64T i = PutUint64 i"

definition EVarBytes :: "byte list \<Rightarrow> byte list" where
  "EVarBytes t = t"

definition EBytes32 :: "byte list \<Rightarrow> byte list" where
  "EBytes32 b = b"

definition DUint8 :: "byte list \<Rightarrow> uint64 \<Rightarrow> error + (byte \<times> byte list)" where
  "DUint8 r l =
     (if l = 1 then
        (case ReadFull 1 r of Inl e \<Rightarrow> Inl e | Inr (b, r') \<Rightarrow> Inr (of_nat (be_get b), r'))
      else Inl ErrTypeForDecoding)"

definition DUint64 :: "byte list \<Rightarrow> uint64 \<Rightarrow> error + (uint64 \<times> byte list)" where
  "DUint64 r l =
     (if l = 8 then
        (case ReadFull 8 r of Inl e \<Rightarrow> Inl e | Inr (b, r') \<Rightarrow> Inr (Uint64 b, r'))
      else Inl ErrTypeForDecoding)"

definition DBytes32 :: "byte list \<Rightarrow> uint64 \<Rightarrow> error + (byte list \<times> byte list)" where
  "DBytes32 r l = (if l = 32 then ReadFull 32 r else Inl ErrTypeForDecoding)"

definition DVarBytes :: "byte list \<Rightarrow> uint64 \<Rightarrow> error + (byte list \<times> byte list)" where
  "DVarBytes r l = ReadFull (unat l) r"

section \<open>The map codecs of accounts/tlv.go\<close>

text \<open>
  \<^verbatim>\<open>lntypes.Hash\<close> is \<^verbatim>\<open>[32]byte\<close>: a byte list, of length 32 where the type
  matters (\<open>is_hash\<close>). \<^verbatim>\<open>map[lntypes.Hash]struct{}\<close> is a set of hashes and
  \<^verbatim>\<open>map[lntypes.Hash]*PaymentEntry\<close> a partial map to pointers, \<open>None\<close> being the
  nil pointer; a nil map has no entries, as the empty one. \<^verbatim>\<open>len\<close> of a map is the
  number of its keys. Go leaves the order of \<^verbatim>\<open>for ... range\<close> over a map open: the
  encoders take the order of that run as an argument, \<open>hashOrder\<close> and \<open>entryOrder\<close>
  saying that it visits every entry of the map once.
\<close>

type_synonym Hash = "byte list"

definition is_hash :: "Hash \<Rightarrow> bool" where
  "is_hash h \<longleftrightarrow> length h = 32"

record PaymentEntry =
  Status :: int              \<comment> \<open>\<^verbatim>\<open>lnrpc.Payment_PaymentStatus\<close>, an \<^verbatim>\<open>int32\<close>\<close>
  FullAmount :: uint64       \<comment> \<open>\<^verbatim>\<open>lnwire.MilliSatoshi\<close>, a \<^verbatim>\<open>uint64\<close>\<close>

type_synonym HashSet = "Hash set"
type_synonym PaymentMap = "Hash \<rightharpoonup> PaymentEntry option"

definition hashOrder :: "Hash list \<Rightarrow> HashSet \<Rightarrow> bool" where
  "hashOrder ord t \<longleftrightarrow> distinct ord \<and> set ord = t"

definition entryOrder :: "(Hash \<times> PaymentEntry option) list \<Rightarrow> PaymentMap \<Rightarrow> bool" where
  "entryOrder ord t \<longleftrightarrow> distinct (map fst ord) \<and> map_of ord = t"

text \<open>The loop of \<^verbatim>\<open>HashMapEncoder\<close> over the hashes, in the order of the run.\<close>

fun encodeHashes :: "Hash list \<Rightarrow> byte list" where
  "encodeHashes [] = []"
| "encodeHashes (hash # rest) = EBytes32 hash @ encodeHashes rest"

definition HashMapEncoder :: "Hash list \<Rightarrow> HashSet \<Rightarrow> error + byte list" where
  "HashMapEncoder ord t = Inr (WriteVarInt (of_nat (card t)) @ encodeHashes ord)"

text \<open>The loop of \<^verbatim>\<open>HashMapDecoder\<close>, \<^verbatim>\<open>for i := uint64(0); i < numItems; i++\<close>.\<close>

fun decodeHashes :: "nat \<Rightarrow> byte list \<Rightarrow> HashSet \<Rightarrow> error + (HashSet \<times> byte list)" where
  "decodeHashes 0 r hashes = Inr (hashes, r)"
| "decodeHashes (Suc n) r hashes =
     (case DBytes32 r 32 of
        Inl e \<Rightarrow> Inl e
      | Inr (item, r') \<Rightarrow> decodeHashes n r' (insert item hashes))"

definition HashMapDecoder :: "byte list \<Rightarrow> uint64 \<Rightarrow> error + (HashSet \<times> byte list)" where
  "HashMapDecoder r l =
     (case ReadVarInt r of
        Inl e \<Rightarrow> Inl e
      | Inr (numItems, r') \<Rightarrow> decodeHashes (unat numItems) r' {})"

text \<open>
  The loop of \<^verbatim>\<open>PaymentEntryMapEncoder\<close>: the hash, \<^verbatim>\<open>byte(entry.Status)\<close> (the
  low eight bits of the status) and the amount. \<^verbatim>\<open>entry.Status\<close> on a nil entry
  panics.
\<close>

fun encodeEntries :: "(Hash \<times> PaymentEntry option) list \<Rightarrow> error + byte list" where
  "encodeEntries [] = Inr []"
| "encodeEntries ((hash, None) # rest) = Inl ErrNilPointer"
| "encodeEntries ((hash, Some entry) # rest) =
     (case encodeEntries rest of
        Inl e \<Rightarrow> Inl e
      | Inr bs \<Rightarrow>
          Inr (EBytes32 hash @ [word_of_int (Status entry)] @ EUint64T (FullAmount entry) @ bs))"

definition PaymentEntryMapEncoder ::
  "(Hash \<times> PaymentEntry option) list \<Rightarrow> PaymentMap \<Rightarrow> error + byte list" where
  "PaymentEntryMapEncoder ord t =
     (case encodeEntries ord of
        Inl e \<Rightarrow> Inl e
      | Inr bs \<Rightarrow> Inr (WriteVarInt (of_nat (card (dom t))) @ bs))"

text \<open>
  The loop of \<^verbatim>\<open>PaymentEntryMapDecoder\<close>. \<^verbatim>\<open>r.Read(status)\<close> with a buffer of one
  byte returns \<^verbatim>\<open>io.EOF\<close> at the end of the input.
\<close>

fun decodeEntries :: "nat \<Rightarrow> byte list \<Rightarrow> PaymentMap \<Rightarrow> error + (PaymentMap \<times> byte list)" where
  "decodeEntries 0 r entries = Inr (entries, r)"
| "decodeEntries (Suc n) r entries =
     (case DBytes32 r 32 of
        Inl e \<Rightarrow> Inl e
      | Inr (item, r1) \<Rightarrow>
          (case r1 of
             [] \<Rightarrow> Inl EOF
           | status # r2 \<Rightarrow>
               (case DUint64 r2 8 of
                  Inl e \<Rightarrow> Inl e
                | Inr (fullAmt, r3) \<Rightarrow>
                    decodeEntries n r3
                      (entries(item \<mapsto> Some \<lparr>Status = uint status, FullAmount = fullAmt\<rparr>)))))"

definition PaymentEntryMapDecoder :: "byte list \<Rightarrow> uint64 \<Rightarrow> error + (PaymentMap \<times> byte list)" where
  "PaymentEntryMapDecoder r l =
     (case ReadVarInt r of
        Inl e \<Rightarrow> Inl e
      | Inr (numItems, r') \<Rightarrow> decodeEntries (unat numItems) r' Map.empty)"

text \<open>
  The size closures of \<^verbatim>\<open>newHashMapRecord\<close> and \<^verbatim>\<open>newPaymentEntryMapRecord\<close>:
  \<^verbatim>\<open>uint64(len(*hashMap) * lntypes.HashSize)\<close> and
  \<^verbatim>\<open>uint64(len(*hashMap) * (lntypes.HashSize + 1 + 8))\<close>.
\<close>

definition hashMapRecordSize :: "HashSet \<Rightarrow> uint64" where
  "hashMapRecordSize hashMap = of_nat (card hashMap * 32)"

definition paymentEntryMapRecordSize :: "PaymentMap \<Rightarrow> uint64" where
  "paymentEntryMapRecordSize hashMap = of_nat (card (dom hashMap) * (32 + 1 + 8))"

section \<open>time.Time and the account\<close>

text \<open>
  \<^verbatim>\<open>int64\<close> values are integers in the range of the type; \<open>wrap64\<close> is the
  wrap-around of Go's \<^verbatim>\<open>int64\<close> arithmetic, \<open>uint64_of_int64\<close> and
  \<open>int64_of_uint64\<close> are the conversions \<^verbatim>\<open>uint64(x)\<close> and \<^verbatim>\<open>int64(u)\<close>.
\<close>

definition in_int64 :: "int \<Rightarrow> bool" where
  "in_int64 x \<longleftrightarrow> - (2 ^ 63) \<le> x \<and> x < 2 ^ 63"

definition in_int32 :: "int \<Rightarrow> bool" where
  "in_int32 x \<longleftrightarrow> - (2 ^ 31) \<le> x \<and> x < 2 ^ 31"

definition uint64_of_int64 :: "int \<Rightarrow> uint64" where
  "uint64_of_int64 x = word_of_int x"

definition int64_of_uint64 :: "uint64 \<Rightarrow> int" where
  "int64_of_uint64 u = sint u"

definition wrap64 :: "int \<Rightarrow> int" where
  "wrap64 x = int64_of_uint64 (uint64_of_int64 x)"

text \<open>
  A \<^verbatim>\<open>time.Time\<close> as the instant it denotes: \<^verbatim>\<open>t.sec()\<close>, the seconds since
  January 1 of year 1 (an \<^verbatim>\<open>int64\<close>), and \<^verbatim>\<open>t.nsec()\<close>, the nanoseconds within
  the second. The location and the monotonic clock reading are left out.
\<close>

record Time =
  sec :: int
  nsec :: int

definition valid_time :: "Time \<Rightarrow> bool" where
  "valid_time t \<longleftrightarrow> in_int64 (sec t) \<and> 0 \<le> nsec t \<and> nsec t < 1000000000"

definition unixToInternal :: int where
  "unixToInternal = (1969 * 365 + 1969 div 4 - 1969 div 100 + 1969 div 400) * 86400"

definition internalToUnix :: int where
  "internalToUnix = - unixToInternal"

definition zeroTime :: Time where
  "zeroTime = \<lparr>sec = 0, nsec = 0\<rparr>"

definition IsZero :: "Time \<Rightarrow> bool" where
  "IsZero t \<longleftrightarrow> sec t = 0 \<and> nsec t = 0"

definition UnixNano :: "Time \<Rightarrow> int" where
  "UnixNano t = wrap64 (wrap64 (wrap64 (sec t + internalToUnix) * 1000000000) + nsec t)"

definition unixTime :: "int \<Rightarrow> int \<Rightarrow> Time" where
  "unixTime s n = \<lparr>sec = wrap64 (s + unixToInternal), nsec = n\<rparr>"

text \<open>\<^verbatim>\<open>time.Unix(sec, nsec)\<close>; Go's \<^verbatim>\<open>/\<close> truncates towards zero (\<open>sdiv\<close>).\<close>

definition Unix :: "int \<Rightarrow> int \<Rightarrow> Time" where
  "Unix s ns =
     (if ns < 0 \<or> ns \<ge> 1000000000 then
        (let n = ns sdiv 1000000000;
             s1 = wrap64 (s + n);
             ns1 = wrap64 (ns - wrap64 (n * 1000000000))
         in if ns1 < 0 then unixTime (wrap64 (s1 - 1)) (wrap64 (ns1 + 1000000000))
            else unixTime s1 ns1)
      else unixTime s ns)"

record OffChainBalanceAccount =
  ID :: "byte list"            \<comment> \<open>\<^verbatim>\<open>AccountID\<close>, \<^verbatim>\<open>[8]byte\<close>\<close>
  Type :: byte                 \<comment> \<open>\<^verbatim>\<open>AccountType\<close>, a \<^verbatim>\<open>uint8\<close>\<close>
  InitialBalance :: uint64     \<comment> \<open>\<^verbatim>\<open>lnwire.MilliSatoshi\<close>\<close>
  CurrentBalance :: int        \<comment> \<open>\<^verbatim>\<open>int64\<close>\<close>
  LastUpdate :: Time
  ExpirationDate :: Time
  Invoices :: HashSet
  Payments :: PaymentMap

text \<open>What the Go types of the fields say about an account.\<close>

definition wf_account :: "OffChainBalanceAccount \<Rightarrow> bool" where
  "wf_account a \<longleftrightarrow>
     length (ID a) = 8 \<and> in_int64 (CurrentBalance a) \<and>
     valid_time (LastUpdate a) \<and> valid_time (ExpirationDate a) \<and>
     finite (Invoices a) \<and> card (Invoices a) < 2 ^ 63 \<and> (\<forall>h \<in> Invoices a. is_hash h) \<and>
     finite (dom (Payments a)) \<and> card (dom (Payments a)) < 2 ^ 63 \<and>
     (\<forall>h \<in> dom (Payments a). is_hash h) \<and>
     (\<forall>e \<in> ran (Payments a). case e of None \<Rightarrow> True | Some p \<Rightarrow> in_int32 (Status p))"

section \<open>The tlv package: records and streams\<close>

text \<open>
  A \<^verbatim>\<open>tlv.Record\<close> holds its type, a size function, an encoder and a decoder, and a
  pointer to the variable it encodes from and decodes into. The variables that the
  records of \<^verbatim>\<open>serializeAccount\<close> and \<^verbatim>\<open>deserializeAccount\<close> point to are the
  fields of \<open>vars\<close>; a pointer is the pair of reading and writing its field.
\<close>

record vars =
  id_var :: "byte list"
  accountType :: byte
  initialBalance :: uint64
  currentBalance :: uint64
  lastUpdate :: uint64
  expirationDate :: uint64
  invoices :: HashSet
  payments :: PaymentMap

type_synonym 'a ptr = "(vars \<Rightarrow> 'a) \<times> ('a \<Rightarrow> vars \<Rightarrow> vars)"

definition load :: "'a ptr \<Rightarrow> vars \<Rightarrow> 'a" where
  "load p s = fst p s"

definition store :: "'a ptr \<Rightarrow> vars \<Rightarrow> error + ('a \<times> byte list) \<Rightarrow> error + (vars \<times> byte list)" where
  "store p s res = (case res of Inl e \<Rightarrow> Inl e | Inr (v, r) \<Rightarrow> Inr (snd p v s, r))"

definition p_id :: "byte list ptr" where
  "p_id = (id_var, \<lambda>v s. s\<lparr>id_var := v\<rparr>)"

definition p_accountType :: "byte ptr" where
  "p_accountType = (accountType, \<lambda>v s. s\<lparr>accountType := v\<rparr>)"

definition p_initialBalance :: "uint64 ptr" where
  "p_initialBalance = (initialBalance, \<lambda>v s. s\<lparr>initialBalance := v\<rparr>)"

definition p_currentBalance :: "uint64 ptr" where
  "p_currentBalance = (currentBalance, \<lambda>v s. s\<lparr>currentBalance := v\<rparr>)"

definition p_lastUpdate :: "uint64 ptr" where
  "p_lastUpdate = (lastUpdate, \<lambda>v s. s\<lparr>lastUpdate := v\<rparr>)"

definition p_expirationDate :: "uint64 ptr" where
  "p_expirationDate = (expirationDate, \<lambda>v s. s\<lparr>expirationDate := v\<rparr>)"

definition p_invoices :: "HashSet ptr" where
  "p_invoices = (invoices, \<lambda>v s. s\<lparr>invoices := v\<rparr>)"

definition p_payments :: "PaymentMap ptr" where
  "p_payments = (payments, \<lambda>v s. s\<lparr>payments := v\<rparr>)"

record Record =
  recTyp :: uint64         \<comment> \<open>the field \<^verbatim>\<open>typ\<close>\<close>
  Size :: "vars \<Rightarrow> uint64"
  encoder :: "vars \<Rightarrow> error + byte list"
  decoder :: "byte list \<Rightarrow> uint64 \<Rightarrow> vars \<Rightarrow> error + (vars \<times> byte list)"

text \<open>
  \<^verbatim>\<open>tlv.MakePrimitiveRecord\<close> chooses by the type of the pointer: a static record
  of size 1 for \<^verbatim>\<open>*uint8\<close>, of size 8 for \<^verbatim>\<open>*uint64\<close>, and for \<^verbatim>\<open>*[]byte\<close> a
  dynamic record whose size is the length of the slice.
\<close>

definition MakePrimitiveRecord_uint8 :: "uint64 \<Rightarrow> byte ptr \<Rightarrow> Record" where
  "MakePrimitiveRecord_uint8 t p =
     \<lparr>recTyp = t, Size = (\<lambda>s. 1), encoder = (\<lambda>s. Inr (EUint8 (load p s))),
      decoder = (\<lambda>r l s. store p s (DUint8 r l))\<rparr>"

definition MakePrimitiveRecord_uint64 :: "uint64 \<Rightarrow> uint64 ptr \<Rightarrow> Record" where
  "MakePrimitiveRecord_uint64 t p =
     \<lparr>recTyp = t, Size = (\<lambda>s. 8), encoder = (\<lambda>s. Inr (EUint64 (load p s))),
      decoder = (\<lambda>r l s. store p s (DUint64 r l))\<rparr>"

definition MakePrimitiveRecord_bytes :: "uint64 \<Rightarrow> byte list ptr \<Rightarrow> Record" where
  "MakePrimitiveRecord_bytes t p =
     \<lparr>recTyp = t, Size = (\<lambda>s. of_nat (length (load p s))),
      encoder = (\<lambda>s. Inr (EVarBytes (load p s))),
      decoder = (\<lambda>r l s. store p s (DVarBytes r l))\<rparr>"

text \<open>
  \<^verbatim>\<open>newHashMapRecord\<close> and \<^verbatim>\<open>newPaymentEntryMapRecord\<close> of accounts/tlv.go. The
  order in which the encoder's \<^verbatim>\<open>range\<close> will visit the map is an argument.
\<close>

definition newHashMapRecord :: "uint64 \<Rightarrow> Hash list \<Rightarrow> HashSet ptr \<Rightarrow> Record" where
  "newHashMapRecord tlvType ord hashMap =
     \<lparr>recTyp = tlvType, Size = (\<lambda>s. hashMapRecordSize (load hashMap s)),
      encoder = (\<lambda>s. HashMapEncoder ord (load hashMap s)),
      decoder = (\<lambda>r l s. store hashMap s (HashMapDecoder r l))\<rparr>"

definition newPaymentEntryMapRecord ::
  "uint64 \<Rightarrow> (Hash \<times> PaymentEntry option) list \<Rightarrow> PaymentMap ptr \<Rightarrow> Record" where
  "newPaymentEntryMapRecord tlvType ord hashMap =
     \<lparr>recTyp = tlvType, Size = (\<lambda>s. paymentEntryMapRecordSize (load hashMap s)),
      encoder = (\<lambda>s. PaymentEntryMapEncoder ord (load hashMap s)),
      decoder = (\<lambda>r l s. store hashMap s (PaymentEntryMapDecoder r l))\<rparr>"

text \<open>\<^verbatim>\<open>tlv.NewStream\<close> accepts the records only in strictly ascending order of type.\<close>

fun canonicalOrder :: "Record list \<Rightarrow> uint64 \<Rightarrow> bool \<Rightarrow> bool" where
  "canonicalOrder [] minT overflow = True"
| "canonicalOrder (record # rest) minT overflow =
     (if overflow \<or> recTyp record < minT then False
      else canonicalOrder rest (recTyp record + 1) (if recTyp record = - 1 then True else overflow))"

definition NewStream :: "Record list \<Rightarrow> error + Record list" where
  "NewStream records =
     (if canonicalOrder records 0 False then Inr records else Inl ErrStreamNotCanonical)"

text \<open>\<^verbatim>\<open>Stream.Encode\<close>: type, length and value of every record, in order.\<close>

fun Encode :: "Record list \<Rightarrow> vars \<Rightarrow> error + byte list" where
  "Encode [] s = Inr []"
| "Encode (rec # rest) s =
     (case encoder rec s of
        Inl e \<Rightarrow> Inl e
      | Inr val \<Rightarrow>
          (case Encode rest s of
             Inl e \<Rightarrow> Inl e
           | Inr bs \<Rightarrow> Inr (WriteVarInt (recTyp rec) @ WriteVarInt (Size rec s) @ val @ bs)))"

text \<open>
  \<^verbatim>\<open>Stream.getRecord\<close> walks forward from \<open>idx\<close>; \<open>getRecordFrom\<close> is its loop on
  the records from \<open>idx\<close> on.
\<close>

fun getRecordFrom :: "Record list \<Rightarrow> uint64 \<Rightarrow> nat \<Rightarrow> Record option \<times> nat" where
  "getRecordFrom [] t idx = (None, idx)"
| "getRecordFrom (record # rest) t idx =
     (if recTyp record = t then (Some record, idx + 1)
      else if recTyp record < t then getRecordFrom rest t (idx + 1)
      else (None, idx))"

definition getRecord :: "Record list \<Rightarrow> uint64 \<Rightarrow> nat \<Rightarrow> Record option \<times> nat" where
  "getRecord records t idx = getRecordFrom (drop idx records) t idx"

type_synonym TypeMap = "uint64 \<rightharpoonup> byte list option"

text \<open>
  The loop of \<^verbatim>\<open>Stream.decode\<close> (without the size limit of the p2p variants). A
  record of a known type is decoded by its decoder and recorded in the type map with
  a nil value; the value of a record of an unknown type is copied into the type map.
  A Go reader only moves forward; a decoder that returned a reader that is not
  shorter would end the loop with \<open>ErrNoProgress\<close>.
\<close>

function decode ::
  "Record list \<Rightarrow> TypeMap \<Rightarrow> uint64 \<Rightarrow> nat \<Rightarrow> bool \<Rightarrow> vars \<Rightarrow> byte list \<Rightarrow> error + (TypeMap \<times> vars)" where
  "decode records parsedTypes minT recordIdx overflow s r =
     (case ReadVarInt r of
        Inl e \<Rightarrow> if e = EOF then Inr (parsedTypes, s) else Inl e
      | Inr (t, r1) \<Rightarrow>
          if overflow \<or> t < minT then Inl ErrStreamNotCanonical
          else
            (case ReadVarInt r1 of
               Inl e \<Rightarrow> Inl (eofToUnexpected e)
             | Inr (len, r2) \<Rightarrow>
                 (case getRecord records t recordIdx of
                    (Some rec, newIdx) \<Rightarrow>
                      (case decoder rec r2 len s of
                         Inl e \<Rightarrow> Inl (eofToUnexpected e)
                       | Inr (s', r3) \<Rightarrow>
                           if length r3 < length r then
                             decode records (parsedTypes(t \<mapsto> None)) (t + 1) newIdx (t = - 1) s' r3
                           else Inl ErrNoProgress)
                  | (None, newIdx) \<Rightarrow>
                      if length r2 < unat len then Inl ErrUnexpectedEOF
                      else if length (drop (unat len) r2) < length r then
                        decode records (parsedTypes(t \<mapsto> Some (take (unat len) r2)))
                          (t + 1) newIdx (t = - 1) s (drop (unat len) r2)
                      else Inl ErrNoProgress)))"
  by pat_completeness auto
termination
  by (relation "measure (\<lambda>(records, parsedTypes, minT, recordIdx, overflow, s, r). length r)") auto

declare decode.simps [simp del]

definition DecodeWithParsedTypes :: "Record list \<Rightarrow> vars \<Rightarrow> byte list \<Rightarrow> error + (TypeMap \<times> vars)" where
  "DecodeWithParsedTypes records s r = decode records Map.empty 0 0 False s r"

section \<open>serializeAccount and deserializeAccount\<close>

definition typeID :: uint64 where "typeID = 1"
definition typeAccountType :: uint64 where "typeAccountType = 2"
definition typeInitialBalance :: uint64 where "typeInitialBalance = 3"
definition typeCurrentBalance :: uint64 where "typeCurrentBalance = 4"
definition typeLastUpdate :: uint64 where "typeLastUpdate = 5"
definition typeExpirationDate :: uint64 where "typeExpirationDate = 6"
definition typeInvoices :: uint64 where "typeInvoices = 7"
definition typePayments :: uint64 where "typePayments = 8"

text \<open>
  The records of \<^verbatim>\<open>serializeAccount\<close>: the five primitive ones, the expiration
  date only when it is not the zero time, then the two maps.
\<close>

definition serializeRecords ::
  "Hash list \<Rightarrow> (Hash \<times> PaymentEntry option) list \<Rightarrow> OffChainBalanceAccount \<Rightarrow> Record list" where
  "serializeRecords ordI ordP account =
     [MakePrimitiveRecord_bytes typeID p_id,
      MakePrimitiveRecord_uint8 typeAccountType p_accountType,
      MakePrimitiveRecord_uint64 typeInitialBalance p_initialBalance,
      MakePrimitiveRecord_uint64 typeCurrentBalance p_currentBalance,
      MakePrimitiveRecord_uint64 typeLastUpdate p_lastUpdate]
     @ (if \<not> IsZero (ExpirationDate account)
        then [MakePrimitiveRecord_uint64 typeExpirationDate p_expirationDate] else [])
     @ [newHashMapRecord typeInvoices ordI p_invoices,
        newPaymentEntryMapRecord typePayments ordP p_payments]"

text \<open>
  The variables of \<^verbatim>\<open>serializeAccount\<close> that its records point to. The variable
  \<^verbatim>\<open>expirationDate\<close> exists only where the expiration date is not the zero time.
\<close>

definition serializeVars :: "OffChainBalanceAccount \<Rightarrow> vars" where
  "serializeVars account =
     \<lparr>id_var = ID account,
      accountType = Type account,
      initialBalance = InitialBalance account,
      currentBalance = uint64_of_int64 (CurrentBalance account),
      lastUpdate = uint64_of_int64 (UnixNano (LastUpdate account)),
      expirationDate =
        (if \<not> IsZero (ExpirationDate account)
         then uint64_of_int64 (UnixNano (ExpirationDate account)) else 0),
      invoices = Invoices account,
      payments = Payments account\<rparr>"

definition serializeAccount ::
  "Hash list \<Rightarrow> (Hash \<times> PaymentEntry option) list \<Rightarrow> OffChainBalanceAccount option \<Rightarrow>
   error + byte list" where
  "serializeAccount ordI ordP account =
     (case account of
        None \<Rightarrow> Inl ErrNilAccount
      | Some a \<Rightarrow>
          (case NewStream (serializeRecords ordI ordP a) of
             Inl err \<Rightarrow> Inl err
           | Inr tlvStream \<Rightarrow> Encode tlvStream (serializeVars a)))"

text \<open>The variables of \<^verbatim>\<open>deserializeAccount\<close>, with Go's zero values.\<close>

definition deserializeVars :: vars where
  "deserializeVars =
     \<lparr>id_var = [], accountType = 0, initialBalance = 0, currentBalance = 0, lastUpdate = 0,
      expirationDate = 0, invoices = {}, payments = Map.empty\<rparr>"

definition deserializeRecords :: "Record list" where
  "deserializeRecords =
     [MakePrimitiveRecord_bytes typeID p_id,
      MakePrimitiveRecord_uint8 typeAccountType p_accountType,
      MakePrimitiveRecord_uint64 typeInitialBalance p_initialBalance,
      MakePrimitiveRecord_uint64 typeCurrentBalance p_currentBalance,
      MakePrimitiveRecord_uint64 typeLastUpdate p_lastUpdate,
      MakePrimitiveRecord_uint64 typeExpirationDate p_expirationDate,
      newHashMapRecord typeInvoices [] p_invoices,
      newPaymentEntryMapRecord typePayments [] p_payments]"

text \<open>\<^verbatim>\<open>copy(account.ID[:], id)\<close> into the zeroed \<^verbatim>\<open>[8]byte\<close>.\<close>

definition copyID :: "byte list \<Rightarrow> byte list" where
  "copyID src = take 8 src @ replicate (8 - length src) 0"

definition deserializeAccount :: "byte list \<Rightarrow> error + OffChainBalanceAccount" where
  "deserializeAccount content =
     (case NewStream deserializeRecords of
        Inl err \<Rightarrow> Inl err
      | Inr tlvStream \<Rightarrow>
          (case DecodeWithParsedTypes tlvStream deserializeVars content of
             Inl err \<Rightarrow> Inl err
           | Inr (parsedTypes, s) \<Rightarrow>
               (let account =
                  \<lparr>ID = copyID (id_var s),
                   Type = accountType s,
                   InitialBalance = initialBalance s,
                   CurrentBalance = int64_of_uint64 (currentBalance s),
                   LastUpdate = Unix 0 (int64_of_uint64 (lastUpdate s)),
                   ExpirationDate = zeroTime,
                   Invoices = invoices s,
                   Payments = payments s\<rparr>
                in if parsedTypes typeExpirationDate = Some None
                   then Inr (account\<lparr>ExpirationDate := Unix 0 (int64_of_uint64 (expirationDate s))\<rparr>)
                   else Inr account)))"

section \<open>The numeric codec\<close>

text \<open>
  The codec between 64-bit unsigned integers and fixed-width strings, which
  \<^verbatim>\<open>cmd/litcli/privacy_map.go\<close> calls as \<^verbatim>\<open>firewalldb.Uint64ToStr\<close> and
  \<^verbatim>\<open>firewalldb.StrToUint64\<close>. The package firewalldb is not among the sources.
\<close>

datatype cli_error =
    FormatError                \<comment> \<open>the format (validation) error of the numeric codec\<close>
  | InvalidByteError char      \<comment> \<open>\<^verbatim>\<open>hex.InvalidByteError\<close>\<close>
  | ErrLength                  \<comment> \<open>\<^verbatim>\<open>hex.ErrLength\<close>\<close>
  | OtherError string          \<comment> \<open>an error of the connection or of the RPC\<close>

definition codecWidth :: nat where
  "codecWidth = 20"

definition digitChar :: "nat \<Rightarrow> char" where
  "digitChar d = char_of (48 + d)"

definition isDigit :: "char \<Rightarrow> bool" where
  "isDigit c \<longleftrightarrow> 48 \<le> (of_char c :: nat) \<and> (of_char c :: nat) \<le> 57"

definition digitValue :: "char \<Rightarrow> nat" where
  "digitValue c = of_char c - 48"

text \<open>The \<open>n\<close> low decimal digits of \<open>v\<close>, most significant first.\<close>

fun fixedDecimal :: "nat \<Rightarrow> nat \<Rightarrow> string" where
  "fixedDecimal 0 v = []"
| "fixedDecimal (Suc n) v = fixedDecimal n (v div 10) @ [digitChar (v mod 10)]"

text \<open>
  Modelled from the spec: \<^verbatim>\<open>firewalldb.Uint64ToStr\<close> is missing from the sources.
  It is the \<open>encode\<close> of the spec (4.1 Numeric Codec), from a 64-bit unsigned
  integer to a fixed-width decimal string. The width is 20, the number of digits of
  \<open>2 ^ 64 - 1\<close>.
\<close>

definition Uint64ToStr :: "uint64 \<Rightarrow> string" where
  "Uint64ToStr u = fixedDecimal codecWidth (unat u)"

text \<open>Reading decimal digits from the left; \<open>None\<close> at a character that is no digit.\<close>

fun parseDecimal :: "string \<Rightarrow> nat \<Rightarrow> nat option" where
  "parseDecimal [] acc = Some acc"
| "parseDecimal (c # cs) acc =
     (if isDigit c then parseDecimal cs (acc * 10 + digitValue c) else None)"

text \<open>
  Modelled from the spec: \<^verbatim>\<open>firewalldb.StrToUint64\<close> is missing from the sources.
  It is the \<open>decode\<close> of the spec (4.1 Numeric Codec), which fails with a format
  error when the input has not exactly the expected width or contains a character
  that is not a decimal digit. The spec does not say what \<open>decode\<close> does with 20
  digits that denote a number beyond \<open>2 ^ 64 - 1\<close>: here that input is malformed
  as well.
\<close>

definition StrToUint64 :: "string \<Rightarrow> cli_error + uint64" where
  "StrToUint64 s =
     (if length s \<noteq> codecWidth then Inl FormatError
      else
        (case parseDecimal s 0 of
           None \<Rightarrow> Inl FormatError
         | Some v \<Rightarrow> if v < 2 ^ 64 then Inr (of_nat v) else Inl FormatError))"

section \<open>litcli: privacyMapConvertUint64\<close>

text \<open>\<^verbatim>\<open>hex.DecodeString\<close> of the Go library: two hexadecimal digits give a byte.\<close>

definition fromHexChar :: "char \<Rightarrow> nat option" where
  "fromHexChar c =
     (let n = (of_char c :: nat) in
      if 48 \<le> n \<and> n \<le> 57 then Some (n - 48)
      else if 97 \<le> n \<and> n \<le> 102 then Some (n - 97 + 10)
      else if 65 \<le> n \<and> n \<le> 70 then Some (n - 65 + 10)
      else None)"

fun DecodeString :: "string \<Rightarrow> cli_error + byte list" where
  "DecodeString [] = Inr []"
| "DecodeString [p] =
     (case fromHexChar p of None \<Rightarrow> Inl (InvalidByteError p) | Some a \<Rightarrow> Inl ErrLength)"
| "DecodeString (p # q # rest) =
     (case fromHexChar p of
        None \<Rightarrow> Inl (InvalidByteError p)
      | Some a \<Rightarrow>
          (case fromHexChar q of
             None \<Rightarrow> Inl (InvalidByteError q)
           | Some b \<Rightarrow>
               (case DecodeString rest of
                  Inl e \<Rightarrow> Inl e
                | Inr bs \<Rightarrow> Inr (of_nat (a * 16 + b) # bs))))"

text \<open>\<^verbatim>\<open>fmt.Sprintf("%d", output)\<close> of a \<^verbatim>\<open>uint64\<close>: its decimal digits.\<close>

function decimal :: "nat \<Rightarrow> string" where
  "decimal n = (if n < 10 then [digitChar n] else decimal (n div 10) @ [digitChar (n mod 10)])"
  by pat_completeness auto
termination
  by (relation "measure (\<lambda>n. n)") auto

declare decimal.simps [simp del]

definition Sprintf_d :: "uint64 \<Rightarrow> string" where
  "Sprintf_d output = decimal (unat output)"

text \<open>
  The command line (\<^verbatim>\<open>cli.Context\<close>): the global flags \<^verbatim>\<open>session_id\<close> and
  \<^verbatim>\<open>realtopseudo\<close> and the flag \<^verbatim>\<open>input\<close> of the \<^verbatim>\<open>uint64\<close> subcommand.
\<close>

record Context =
  session_id :: string
  realtopseudo :: bool
  input :: uint64

record PrivacyMapConversionRequest =
  SessionId :: "byte list"
  RealToPseudo :: bool
  Input :: string

record PrivacyMapConversionResponse =
  Output :: string

text \<open>
  What the command does to the outside: the requests it sends to the
  \<^verbatim>\<open>PrivacyMapConversion\<close> RPC and the responses it prints with
  \<^verbatim>\<open>printRespJSON\<close>, in order.
\<close>

datatype event =
    Sent PrivacyMapConversionRequest
  | Printed PrivacyMapConversionResponse

type_synonym FirewallClient = "PrivacyMapConversionRequest \<Rightarrow> cli_error + PrivacyMapConversionResponse"

text \<open>
  \<^verbatim>\<open>privacyMapConvertUint64\<close>. The codec functions of firewalldb, \<^verbatim>\<open>connectClient\<close>
  and the client it returns are arguments: \<open>toStr\<close> stands for
  \<^verbatim>\<open>firewalldb.Uint64ToStr\<close> and \<open>toUint64\<close> for \<^verbatim>\<open>firewalldb.StrToUint64\<close>. The
  result is the events of the run and the error returned, \<open>None\<close> for nil.
\<close>

definition privacyMapConvertUint64 ::
  "(uint64 \<Rightarrow> string) \<Rightarrow> (string \<Rightarrow> cli_error + uint64) \<Rightarrow>
   (Context \<Rightarrow> cli_error + FirewallClient) \<Rightarrow> Context \<Rightarrow> event list \<times> cli_error option" where
  "privacyMapConvertUint64 toStr toUint64 connectClient ctx =
     (case connectClient ctx of
        Inl err \<Rightarrow> ([], Some err)
      | Inr client \<Rightarrow>
          (case DecodeString (session_id ctx) of
             Inl err \<Rightarrow> ([], Some err)
           | Inr sid \<Rightarrow>
               (let inp = toStr (input ctx);
                    req = \<lparr>SessionId = sid, RealToPseudo = realtopseudo ctx, Input = inp\<rparr>
                in case client req of
                     Inl err \<Rightarrow> ([Sent req], Some err)
                   | Inr resp \<Rightarrow>
                       (case toUint64 (Output resp) of
                          Inl err \<Rightarrow> ([Sent req], Some err)
                        | Inr output \<Rightarrow>
                            ([Sent req, Printed \<lparr>Output = Sprintf_d output\<rparr>], None)))))"

section \<open>The privacy mapper\<close>

text \<open>
  The privacy mapper, the store of real and pseudo pairs of firewalldb behind the
  \<^verbatim>\<open>PrivacyMapConversion\<close> RPC, is not among the sources. Its state, from the
  spec (3 Data Model, 4.2 Privacy Mapper): per session a namespace of pairs, kept in
  both directions, created with its first pair.
\<close>

datatype mapper_error = NotFoundError

record Namespace =
  realToPseudoPairs :: "string \<rightharpoonup> string"
  pseudoToRealPairs :: "string \<rightharpoonup> string"

type_synonym SessionID = "byte list"
type_synonym PrivacyMapper = "SessionID \<rightharpoonup> Namespace"

definition emptyNamespace :: Namespace where
  "emptyNamespace = \<lparr>realToPseudoPairs = Map.empty, pseudoToRealPairs = Map.empty\<rparr>"

definition namespaceOf :: "PrivacyMapper \<Rightarrow> SessionID \<Rightarrow> Namespace" where
  "namespaceOf m sid = (case m sid of None \<Rightarrow> emptyNamespace | Some ns \<Rightarrow> ns)"

text \<open>
  The source of pseudorandom values is an argument \<open>gen\<close>, which is given the pseudo
  values in use. \<open>freshGen\<close> is the guarantee the spec asks of the allocation: the
  new value is distinct from every pseudo value already used in the namespace.
\<close>

definition freshGen :: "(string set \<Rightarrow> string) \<Rightarrow> bool" where
  "freshGen gen \<longleftrightarrow> (\<forall>used. finite used \<longrightarrow> gen used \<notin> used)"

text \<open>
  Modelled from the spec: \<open>realToPseudo\<close> of the privacy mapper is missing from the
  sources. By the spec (4.2) it returns the pseudo value of a real value that has
  one in the namespace of the session, and otherwise allocates a new pseudorandom
  value, distinct from every pseudo value already used there, stores the pair and
  returns it.
\<close>

definition realToPseudo ::
  "(string set \<Rightarrow> string) \<Rightarrow> PrivacyMapper \<Rightarrow> SessionID \<Rightarrow> string \<Rightarrow> string \<times> PrivacyMapper" where
  "realToPseudo gen m sid real =
     (let ns = namespaceOf m sid in
      case realToPseudoPairs ns real of
        Some pseudo \<Rightarrow> (pseudo, m)
      | None \<Rightarrow>
          (let pseudo = gen (dom (pseudoToRealPairs ns))
           in (pseudo,
               m(sid \<mapsto> \<lparr>realToPseudoPairs = (realToPseudoPairs ns)(real \<mapsto> pseudo),
                          pseudoToRealPairs = (pseudoToRealPairs ns)(pseudo \<mapsto> real)\<rparr>))))"

text \<open>
  Modelled from the spec: \<open>pseudoToReal\<close> of the privacy mapper is missing from the
  sources. By the spec (4.2) it looks the other direction up and fails with a
  not-found error if the pseudo value was never issued for the session.
\<close>

definition pseudoToReal :: "PrivacyMapper \<Rightarrow> SessionID \<Rightarrow> string \<Rightarrow> mapper_error + string" where
  "pseudoToReal m sid pseudo =
     (case pseudoToRealPairs (namespaceOf m sid) pseudo of
        None \<Rightarrow> Inl NotFoundError
      | Some real \<Rightarrow> Inr real)"

text \<open>
  Modelled from the spec: \<open>clear\<close> of the privacy mapper is missing from the
  sources. By the spec (4.2) it erases the whole namespace of the session.
\<close>

definition clear :: "PrivacyMapper \<Rightarrow> SessionID \<Rightarrow> PrivacyMapper" where
  "clear m sid = m(sid := None)"

text \<open>The states of the mapper: what its operations make of the empty store.\<close>

inductive reachable :: "(string set \<Rightarrow> string) \<Rightarrow> PrivacyMapper \<Rightarrow> bool"
  for gen :: "string set \<Rightarrow> string" where
  initial: "reachable gen Map.empty"
| mapped: "reachable gen m \<Longrightarrow> reachable gen (snd (realToPseudo gen m sid real))"
| cleared: "reachable gen m \<Longrightarrow> reachable gen (clear m sid)"

text \<open>
  A generator for the examples: a string longer than every pseudo value in use.
\<close>

definition longerGen :: "string set \<Rightarrow> string" where
  "longerGen used = replicate (Suc (Max (insert 0 (length ` used)))) CHR ''p''"

section \<open>The account ledger: reservePayment\<close>

text \<open>
  The account service is not among the sources (of the accounts package only tlv.go
  is). The ledger maps account ids to accounts; amounts and balances are integers,
  and the current time is an argument.
\<close>

datatype ledger_error = AccountNotFound

datatype reservation = ReservationOk | ReservationDeclined

type_synonym Ledger = "byte list \<rightharpoonup> OffChainBalanceAccount"

definition before :: "Time \<Rightarrow> Time \<Rightarrow> bool" where
  "before t u \<longleftrightarrow> sec t < sec u \<or> (sec t = sec u \<and> nsec t < nsec u)"

definition expired :: "Time \<Rightarrow> OffChainBalanceAccount \<Rightarrow> bool" where
  "expired now account \<longleftrightarrow>
     (if IsZero (ExpirationDate account) then False else before (ExpirationDate account) now)"

text \<open>The status of a payment in flight, \<^verbatim>\<open>lnrpc.Payment_IN_FLIGHT\<close>.\<close>

definition Payment_IN_FLIGHT :: int where
  "Payment_IN_FLIGHT = 1"

text \<open>
  Modelled from the spec: \<open>reservePayment\<close> of the account ledger is missing from
  the sources. By the spec (4.3 Account Ledger),
  \<open>reservePayment(accountID, paymentHash, reserveAmount)\<close> is declined, not an
  error, if \<open>reserveAmount > current_balance\<close>; on success it debits
  \<open>current_balance\<close> by \<open>reserveAmount\<close>, records a pending payment entry and
  updates \<open>last_update\<close>. An account whose expiration is not zero and in the past
  takes no new reservation. An account that does not exist gives the not-found error.
\<close>

definition reservePayment ::
  "Time \<Rightarrow> Ledger \<Rightarrow> byte list \<Rightarrow> Hash \<Rightarrow> int \<Rightarrow> ledger_error + (reservation \<times> Ledger)" where
  "reservePayment now ledger accountID paymentHash reserveAmount =
     (case ledger accountID of
        None \<Rightarrow> Inl AccountNotFound
      | Some account \<Rightarrow>
          if expired now account then Inr (ReservationDeclined, ledger)
          else if reserveAmount > CurrentBalance account then Inr (ReservationDeclined, ledger)
          else
            Inr (ReservationOk,
                 ledger(accountID \<mapsto>
                   account\<lparr>CurrentBalance := CurrentBalance account - reserveAmount,
                           Payments := (Payments account)(paymentHash \<mapsto>
                             Some \<lparr>Status = Payment_IN_FLIGHT,
                                   FullAmount = word_of_int reserveAmount\<rparr>),
                           LastUpdate := now\<rparr>)))"

section \<open>Predicates used in the statements\<close>

text \<open>
  The namespace of a session is consistent: finitely many pseudo values are in use,
  and the two directions hold the same pairs. A mapper is consistent when the
  namespace of every session is.
\<close>

definition namespace_ok :: "Namespace \<Rightarrow> bool" where
  "namespace_ok ns \<longleftrightarrow>
     finite (dom (pseudoToRealPairs ns)) \<and>
     (\<forall>r p. realToPseudoPairs ns r = Some p \<longleftrightarrow> pseudoToRealPairs ns p = Some r)"

definition mapper_ok :: "PrivacyMapper \<Rightarrow> bool" where
  "mapper_ok m \<longleftrightarrow> (\<forall>sid. namespace_ok (namespaceOf m sid))"


text \<open>
  No payment entry of the map is a nil pointer; every status fits the single byte
  that \<^verbatim>\<open>PaymentEntryMapEncoder\<close> writes for it.
\<close>

definition no_nil_entries :: "PaymentMap \<Rightarrow> bool" where
  "no_nil_entries m \<longleftrightarrow> None \<notin> ran m"

definition status_in_byte :: "PaymentMap \<Rightarrow> bool" where
  "status_in_byte m \<longleftrightarrow> (\<forall>p. Some p \<in> ran m \<longrightarrow> 0 \<le> Status p \<and> Status p \<le> 255)"

text \<open>
  The entry that \<^verbatim>\<open>PaymentEntryMapDecoder\<close> builds from what the encoder wrote for
  \<open>entry\<close>: \<^verbatim>\<open>lnrpc.Payment_PaymentStatus(byte(entry.Status))\<close> and the amount.
\<close>

definition readBack :: "PaymentEntry \<Rightarrow> PaymentEntry" where
  "readBack entry =
     \<lparr>Status = uint (word_of_int (Status entry) :: byte), FullAmount = FullAmount entry\<rparr>"

text \<open>
  The instant \<open>t\<close> has a Unix time in nanoseconds that an \<^verbatim>\<open>int64\<close> holds (the
  years 1678 to 2262), the range in which \<^verbatim>\<open>UnixNano\<close> is documented.
\<close>

definition nanos_in_int64 :: "Time \<Rightarrow> bool" where
  "nanos_in_int64 t \<longleftrightarrow> in_int64 ((sec t + internalToUnix) * 1000000000 + nsec t)"

text \<open>
  The variables of \<^verbatim>\<open>deserializeAccount\<close> after it has decoded what
  \<^verbatim>\<open>serializeAccount\<close> wrote for the account \<open>a\<close>.
\<close>

definition decodedVars :: "OffChainBalanceAccount \<Rightarrow> vars" where
  "decodedVars a =
     \<lparr>id_var = ID a,
      accountType = Type a,
      initialBalance = InitialBalance a,
      currentBalance = uint64_of_int64 (CurrentBalance a),
      lastUpdate = uint64_of_int64 (UnixNano (LastUpdate a)),
      expirationDate =
        (if IsZero (ExpirationDate a) then 0 else uint64_of_int64 (UnixNano (ExpirationDate a))),
      invoices = Invoices a,
      payments = map_option (map_option readBack) \<circ> Payments a\<rparr>"

text \<open>
  The type map has no entry for the expiration date, or the nil entry of a record
  that the stream knows and has decoded.
\<close>

definition nilOrAbsent :: "TypeMap \<Rightarrow> bool" where
  "nilOrAbsent pt \<longleftrightarrow> pt typeExpirationDate = None \<or> pt typeExpirationDate = Some None"

section \<open>Example accounts\<close>

text \<open>
  An account with one invoice and one payment in flight, a negative balance, and an
  expiration date in the year 2025.
\<close>

definition exampleInvoice :: Hash where
  "exampleInvoice = replicate 32 1"

definition examplePayment :: Hash where
  "examplePayment = replicate 32 2"

definition exampleAccount :: OffChainBalanceAccount where
  "exampleAccount =
     \<lparr>ID = [1, 2, 3, 4, 5, 6, 7, 8], Type = 1, InitialBalance = 1000,
      CurrentBalance = - 5,
      LastUpdate = \<lparr>sec = 63835596800, nsec = 5\<rparr>,
      ExpirationDate = \<lparr>sec = 63900000000, nsec = 0\<rparr>,
      Invoices = {exampleInvoice},
      Payments = [examplePayment \<mapsto> Some \<lparr>Status = 2, FullAmount = 400\<rparr>]\<rparr>"

text \<open>
  An account whose payment has a status beyond a byte, whose last update is the zero
  time, and which expires on January 1 of the year 2300 (10413792000 seconds after
  the Unix epoch).
\<close>

definition oddAccount :: OffChainBalanceAccount where
  "oddAccount =
     \<lparr>ID = [1, 2, 3, 4, 5, 6, 7, 8], Type = 1, InitialBalance = 1000,
      CurrentBalance = 1000,
      LastUpdate = \<lparr>sec = 0, nsec = 0\<rparr>,
      ExpirationDate = \<lparr>sec = 72549388800, nsec = 0\<rparr>,
      Invoices = {},
      Payments = [examplePayment \<mapsto> Some \<lparr>Status = 256, FullAmount = 400\<rparr>]\<rparr>"

section \<open>Properties of the codecs\<close>

lemma length_be_put [simp]: "length (be_put n v) = n"
  by (induction n arbitrary: v) auto

lemma be_get_snoc: "be_get (bs @ [b]) = be_get bs * 256 + unat b"
  by (simp add: be_get_def)

lemma be_get_single [simp]: "be_get [b] = unat b"
  by (simp add: be_get_def)

lemma be_get_be_put: "be_get (be_put n v) = v mod 256 ^ n"
proof (induction n arbitrary: v)
  case 0
  then show ?case by (simp add: be_get_def)
next
  case (Suc n)
  have "unat (of_nat (v mod 256) :: byte) = v mod 256"
    by (simp add: unat_of_nat)
  then show ?case
    using Suc by (simp add: be_get_snoc mod_mult2_eq)
qed

lemma Uint64_PutUint64: "Uint64 (PutUint64 v) = v"
proof -
  have "unat v < 256 ^ 8" using unsigned_less [of v, where 'a = nat] by simp
  then show ?thesis by (simp add: Uint64_def PutUint64_def be_get_be_put)
qed

lemma Uint32_PutUint32: "Uint32 (PutUint32 v) = v"
proof -
  have "unat v < 256 ^ 4" using unsigned_less [of v, where 'a = nat] by simp
  then show ?thesis by (simp add: Uint32_def PutUint32_def be_get_be_put)
qed

lemma Uint16_PutUint16: "Uint16 (PutUint16 v) = v"
proof -
  have "unat v < 256 ^ 2" using unsigned_less [of v, where 'a = nat] by simp
  then show ?thesis by (simp add: Uint16_def PutUint16_def be_get_be_put)
qed

lemma length_PutUint [simp]:
  "length (PutUint16 a) = 2" "length (PutUint32 b) = 4" "length (PutUint64 c) = 8"
  by (simp_all add: PutUint16_def PutUint32_def PutUint64_def)

lemma ReadFull_append: "length bs = n \<Longrightarrow> 0 < n \<Longrightarrow> ReadFull n (bs @ rest) = Inr (bs, rest)"
  by (auto simp: ReadFull_def)

lemma ReadFull_1 [simp]: "ReadFull (Suc 0) (b # r) = Inr ([b], r)"
  by (simp add: ReadFull_def)

lemma ucast_16_64: "(v :: uint64) \<le> 0xffff \<Longrightarrow> (ucast (ucast v :: 16 word) :: uint64) = v"
  by (simp add: word_unat_eq_iff word_le_nat_alt unsigned_ucast_eq unsigned_take_bit_eq take_bit_nat_eq_self)

lemma ucast_32_64: "(v :: uint64) \<le> 0xffffffff \<Longrightarrow> (ucast (ucast v :: 32 word) :: uint64) = v"
  by (simp add: word_unat_eq_iff  word_le_nat_alt unsigned_ucast_eq unsigned_take_bit_eq take_bit_nat_eq_self)

lemma ucast_8_64: "(v :: uint64) < 0xfd \<Longrightarrow> (ucast (ucast v :: byte) :: uint64) = v"
  by (simp add: word_unat_eq_iff word_less_nat_alt unsigned_ucast_eq unsigned_take_bit_eq take_bit_nat_eq_self)

lemma unat_ucast_8: "(v :: uint64) < 0xfd \<Longrightarrow> unat (ucast v :: byte) < 253"
  by (simp add: word_unat_eq_iff  word_less_nat_alt unsigned_ucast_eq unat_of_nat take_bit_nat_eq_self)

lemma ReadVarInt_WriteVarInt: "ReadVarInt (WriteVarInt v @ rest) = Inr (v, rest)"
proof -
  consider (a) "v < 0xfd" | (b) "\<not> v < 0xfd" "v \<le> 0xffff"
    | (c) "\<not> v < 0xfd" "\<not> v \<le> 0xffff" "v \<le> 0xffffffff"
    | (d) "\<not> v < 0xfd" "\<not> v \<le> 0xffff" "\<not> v \<le> 0xffffffff"
    by blast
  then show ?thesis
  proof cases
    case a
    then show ?thesis
      by (simp add: ReadVarInt_def WriteVarInt_def ReadFull_def ucast_8_64 unat_ucast_8)
  next
    case b
    have "ReadFull 2 (PutUint16 (ucast v) @ rest) = Inr (PutUint16 (ucast v), rest)"
      by (rule ReadFull_append) simp_all
    with b show ?thesis
      by (simp add: ReadVarInt_def WriteVarInt_def Uint16_PutUint16 ucast_16_64)
  next
    case c
    have "ReadFull 4 (PutUint32 (ucast v) @ rest) = Inr (PutUint32 (ucast v), rest)"
      by (rule ReadFull_append) simp_all
    with c show ?thesis
      by (simp add: ReadVarInt_def WriteVarInt_def Uint32_PutUint32 ucast_32_64)
  next
    case d
    have "ReadFull 8 (PutUint64 v @ rest) = Inr (PutUint64 v, rest)"
      by (rule ReadFull_append) simp_all
    with d show ?thesis
      by (simp add: ReadVarInt_def WriteVarInt_def Uint64_PutUint64)
  qed
qed

lemma length_WriteVarInt: "0 < length (WriteVarInt v)"
  by (simp add: WriteVarInt_def)

lemma DBytes32_append: "is_hash h \<Longrightarrow> DBytes32 (EBytes32 h @ rest) 32 = Inr (h, rest)"
  by (simp add: DBytes32_def EBytes32_def is_hash_def ReadFull_append)

lemma DUint64_append: "DUint64 (EUint64 v @ rest) 8 = Inr (v, rest)"
  by (simp add: DUint64_def EUint64_def ReadFull_append Uint64_PutUint64)

lemma DUint64_T_append: "DUint64 (EUint64T v @ rest) 8 = Inr (v, rest)"
  by (simp add: DUint64_def EUint64T_def ReadFull_append Uint64_PutUint64)

lemma DUint8_append: "DUint8 (EUint8 v @ rest) 1 = Inr (v, rest)"
  by (simp add: DUint8_def EUint8_def ReadFull_def)

lemma DVarBytes_append: "length b < 2 ^ 64 \<Longrightarrow> DVarBytes (EVarBytes b @ rest) (of_nat (length b)) = Inr (b, rest)"
  by (simp add: DVarBytes_def EVarBytes_def ReadFull_def unat_of_nat take_bit_nat_eq_self)

lemma decodeHashes_encodeHashes:
  "\<forall>h \<in> set ord. is_hash h \<Longrightarrow>
   decodeHashes (length ord) (encodeHashes ord @ rest) acc = Inr (acc \<union> set ord, rest)"
  by (induction ord arbitrary: acc) (auto simp: DBytes32_append)

lemma fold_upd_distinct:
  "distinct (map fst ord) \<Longrightarrow> fold (\<lambda>(k, v) m. m(k \<mapsto> v)) ord m = m ++ map_of ord"
proof (induction ord arbitrary: m)
  case Nil
  then show ?case by simp
next
  case (Cons p ord)
  obtain k v where p: "p = (k, v)" by (cases p)
  from Cons.prems p have notin: "k \<notin> fst ` set ord" and d: "distinct (map fst ord)" by auto
  have "map_of ord k = None" using notin by (simp add: map_of_eq_None_iff)
  then have "(m(k \<mapsto> v)) ++ map_of ord = m ++ ((map_of ord)(k \<mapsto> v))"
    by (auto simp: map_add_def fun_eq_iff split: option.splits)
  with Cons.IH [OF d, of "m(k \<mapsto> v)"] p show ?case by (simp del: fun_upd_apply)
qed

lemma readBack_id: "0 \<le> Status e \<Longrightarrow> Status e \<le> 255 \<Longrightarrow> readBack e = e"
  by (simp add: readBack_def uint_word_of_int_eq take_bit_int_eq_self)

lemma encodeEntries_ok:
  "\<forall>(h, e) \<in> set ord. e \<noteq> None \<Longrightarrow> \<exists>bs. encodeEntries ord = Inr bs"
proof (induction ord)
  case Nil
  then show ?case by simp
next
  case (Cons p ord)
  then obtain h e where "p = (h, Some e)" by (cases p) auto
  moreover from Cons obtain bs where "encodeEntries ord = Inr bs" by auto
  ultimately show ?case by simp
qed

lemma decodeEntries_encodeEntries:
  "\<forall>(h, e) \<in> set ord. is_hash h \<Longrightarrow> encodeEntries ord = Inr bs \<Longrightarrow>
   decodeEntries (length ord) (bs @ rest) acc =
     Inr (fold (\<lambda>(k, v) m. m(k \<mapsto> v)) (map (\<lambda>(h, e). (h, map_option readBack e)) ord) acc, rest)"
proof (induction ord arbitrary: acc bs)
  case Nil
  then show ?case by simp
next
  case (Cons p ord)
  from Cons.prems(2) obtain h e where p: "p = (h, Some e)"
    by (cases p; cases "snd p") auto
  from Cons.prems(1) p have h: "is_hash h" and ok: "\<forall>(h, e) \<in> set ord. is_hash h" by auto
  from Cons.prems(2) p obtain bs' where bs': "encodeEntries ord = Inr bs'"
    and bs: "bs = EBytes32 h @ [word_of_int (Status e)] @ EUint64T (FullAmount e) @ bs'"
    by (auto split: sum.splits)
  show ?case
    using Cons.IH [OF ok bs'] h
    by (simp add: bs p DBytes32_append DUint64_T_append readBack_def)
qed

lemma ReadVarInt_nil [simp]: "ReadVarInt [] = Inl EOF"
  by (simp add: ReadVarInt_def ReadFull_def)

lemma decode_nil: "decode records pt minT idx ovf s [] = Inr (pt, s)"
  by (subst decode.simps) simp

lemma decode_step:
  "\<not> ovf \<Longrightarrow> \<not> t < minT \<Longrightarrow>
   decode records pt minT idx ovf s (WriteVarInt t @ WriteVarInt len @ rest) =
     (case getRecord records t idx of
        (Some rec, newIdx) \<Rightarrow>
          (case decoder rec rest len s of
             Inl e \<Rightarrow> Inl (eofToUnexpected e)
           | Inr (s', r3) \<Rightarrow>
               if length r3 < length (WriteVarInt t @ WriteVarInt len @ rest) then
                 decode records (pt(t \<mapsto> None)) (t + 1) newIdx (t = - 1) s' r3
               else Inl ErrNoProgress)
      | (None, newIdx) \<Rightarrow>
          if length rest < unat len then Inl ErrUnexpectedEOF
          else decode records (pt(t \<mapsto> Some (take (unat len) rest))) (t + 1) newIdx (t = - 1) s
                 (drop (unat len) rest))"
proof -
  assume a: "\<not> ovf" "\<not> t < minT"
  obtain b bs where w: "WriteVarInt t = b # bs"
    using length_WriteVarInt [of t] by (cases "WriteVarInt t") auto
  have "length (drop (unat len) rest) < length (WriteVarInt t @ WriteVarInt len @ rest)"
    by (simp add: w)
  with a show ?thesis
    by (subst decode.simps)
       (simp add: ReadVarInt_WriteVarInt split: prod.split option.split)
qed

lemma HashMap_roundtrip:
  assumes "finite S" "card S < 2 ^ 64" "hashOrder ord S" "\<forall>h \<in> S. is_hash h"
    and "HashMapEncoder ord S = Inr bs"
  shows "HashMapDecoder (bs @ rest) l = Inr (S, rest)"
proof -
  from assms(3) have len: "card S = length ord" and s: "set ord = S"
    by (auto simp: hashOrder_def distinct_card)
  from assms(2) len have "unat (of_nat (length ord) :: uint64) = length ord"
    by (simp add: unat_of_nat take_bit_nat_eq_self)
  moreover from assms(5) have "bs = WriteVarInt (of_nat (length ord)) @ encodeHashes ord"
    by (simp add: HashMapEncoder_def len)
  ultimately show ?thesis
    using decodeHashes_encodeHashes [of ord rest "{}"] assms(4) s
    by (simp add: HashMapDecoder_def ReadVarInt_WriteVarInt)
qed

lemma entryOrder_set:
  "entryOrder ord m \<Longrightarrow> (h, e) \<in> set ord \<Longrightarrow> m h = Some e"
  by (auto simp: entryOrder_def)

lemma entryOrder_card: "entryOrder ord m \<Longrightarrow> card (dom m) = length ord"
proof -
  assume a: "entryOrder ord m"
  then have "dom m = set (map fst ord)"
    by (force simp: entryOrder_def dom_map_of_conv_image_fst)
  moreover from a have "distinct (map fst ord)" by (simp add: entryOrder_def)
  ultimately show ?thesis using distinct_card [of "map fst ord"] by simp
qed

lemma PaymentEntryMap_roundtrip:
  assumes "card (dom m) < 2 ^ 64" "entryOrder ord m" "\<forall>h \<in> dom m. is_hash h"
    and "PaymentEntryMapEncoder ord m = Inr bs"
  shows "PaymentEntryMapDecoder (bs @ rest) l = Inr (map_option (map_option readBack) \<circ> m, rest)"
proof -
  let ?f = "\<lambda>(h, e). (h, map_option readBack e)"
  from assms(4) obtain bs' where bs': "encodeEntries ord = Inr bs'"
    and bs: "bs = WriteVarInt (of_nat (card (dom m))) @ bs'"
    by (auto simp: PaymentEntryMapEncoder_def split: sum.splits)
  have len: "card (dom m) = length ord" by (rule entryOrder_card) fact
  with assms(1) have n: "unat (of_nat (length ord) :: uint64) = length ord"
    by (simp add: unat_of_nat take_bit_nat_eq_self)
  have hashes: "\<forall>(h, e) \<in> set ord. is_hash h"
    using assms(2,3) by (auto dest: entryOrder_set)
  have d: "distinct (map fst (map ?f ord))"
    using assms(2) by (simp add: entryOrder_def comp_def case_prod_unfold)
  have "fold (\<lambda>(k, v) m. m(k \<mapsto> v)) (map ?f ord) Map.empty = map_of (map ?f ord)"
    using fold_upd_distinct [OF d, of Map.empty] by simp
  also have "\<dots> = map_option (map_option readBack) \<circ> map_of ord"
    by (simp add: map_of_map)
  also have "map_of ord = m" using assms(2) by (simp add: entryOrder_def)
  finally have fold_eq:
    "fold (\<lambda>(k, v) m. m(k \<mapsto> v)) (map ?f ord) Map.empty = map_option (map_option readBack) \<circ> m" .
  have "decodeEntries (length ord) (bs' @ rest) Map.empty =
          Inr (map_option (map_option readBack) \<circ> m, rest)"
    unfolding fold_eq [symmetric] by (rule decodeEntries_encodeEntries [OF hashes bs'])
  then show ?thesis
    using n by (simp add: PaymentEntryMapDecoder_def bs len ReadVarInt_WriteVarInt)
qed

lemma readBack_map_id:
  assumes "no_nil_entries m" "status_in_byte m"
  shows "map_option (map_option readBack) \<circ> m = m"
proof
  fix h
  show "(map_option (map_option readBack) \<circ> m) h = m h"
  proof (cases "m h")
    case None
    then show ?thesis by simp
  next
    case (Some e)
    then have r: "e \<in> ran m" by (auto simp: ran_def)
    with assms(1) obtain p where p: "e = Some p" by (cases e) (auto simp: no_nil_entries_def)
    with r assms(2) have "0 \<le> Status p" "Status p \<le> 255" by (auto simp: status_in_byte_def)
    then show ?thesis using Some p by (simp add: readBack_id)
  qed
qed

lemma entryOrder_no_nil:
  "entryOrder ord m \<Longrightarrow> no_nil_entries m \<Longrightarrow> \<forall>(h, e) \<in> set ord. e \<noteq> None"
  by (auto simp: no_nil_entries_def ran_def dest: entryOrder_set)

section \<open>Properties of the integer conversions and of time.Time\<close>

lemma int64_roundtrip: "in_int64 x \<Longrightarrow> int64_of_uint64 (uint64_of_int64 x) = x"
  by (simp add: int64_of_uint64_def uint64_of_int64_def in_int64_def sint_sbintrunc'
        signed_take_bit_int_eq_self)

lemma uint64_roundtrip: "uint64_of_int64 (int64_of_uint64 w) = w"
  by (simp add: int64_of_uint64_def uint64_of_int64_def)

lemma in_int64_of_uint64: "in_int64 (int64_of_uint64 w)"
  using sint_ge [of w] sint_lt [of w] by (simp add: in_int64_def int64_of_uint64_def)

lemma wrap64_id: "in_int64 x \<Longrightarrow> wrap64 x = x"
  by (simp add: wrap64_def int64_roundtrip)

lemma in_int64_wrap64: "in_int64 (wrap64 x)"
  by (simp add: wrap64_def in_int64_of_uint64)

lemma uint64_of_wrap64: "uint64_of_int64 (wrap64 x) = uint64_of_int64 x"
  by (simp add: wrap64_def uint64_roundtrip)

lemma wrap64_add_left: "wrap64 (wrap64 a + b) = wrap64 (a + b)"
proof -
  have "uint64_of_int64 (wrap64 a + b) = uint64_of_int64 (a + b)"
    using uint64_of_wrap64 [of a] by (simp add: uint64_of_int64_def)
  then show ?thesis by (simp add: wrap64_def)
qed

lemma wrap64_mult_left: "wrap64 (wrap64 a * b) = wrap64 (a * b)"
proof -
  have "uint64_of_int64 (wrap64 a * b) = uint64_of_int64 (a * b)"
    using uint64_of_wrap64 [of a] by (simp add: uint64_of_int64_def)
  then show ?thesis by (simp add: wrap64_def)
qed

lemma UnixNano_eq: "UnixNano t = wrap64 ((sec t + internalToUnix) * 1000000000 + nsec t)"
  by (simp add: UnixNano_def wrap64_add_left wrap64_mult_left)

lemma unixToInternal_val: "unixToInternal = 62135596800"
  by (simp add: unixToInternal_def)

lemma sdiv_normalise:
  fixes n :: int
  shows "(if n < 0 \<or> n \<ge> 1000000000 then
           (if n - (n sdiv 1000000000) * 1000000000 < 0
            then (n sdiv 1000000000 - 1, n - (n sdiv 1000000000) * 1000000000 + 1000000000)
            else (n sdiv 1000000000, n - (n sdiv 1000000000) * 1000000000))
          else (0, n)) = (n div 1000000000, n mod 1000000000)"
proof -
  let ?B = "1000000000 :: int"
  have m: "n - n div ?B * ?B = n mod ?B" by (rule minus_div_mult_eq_mod)
  have pos: "0 \<le> n mod ?B" and lt: "n mod ?B < ?B" by simp_all
  consider (small) "0 \<le> n" "n < ?B" | (big) "?B \<le> n" | (neg_dvd) "n < 0" "?B dvd n"
    | (neg) "n < 0" "\<not> ?B dvd n"
    by linarith
  then show ?thesis
  proof cases
    case small
    then show ?thesis by simp
  next
    case big
    then have "n sdiv ?B = n div ?B" by (simp add: signed_divide_int_eq_divide_int)
    with big m pos show ?thesis by simp
  next
    case neg_dvd
    then have "n sdiv ?B = n div ?B" by (simp add: signed_divide_int_eq_divide_int)
    with neg_dvd m pos show ?thesis by simp
  next
    case neg
    then have q: "n sdiv ?B = n div ?B + 1" by (simp add: signed_divide_int_eq_divide_int)
    have "n - (n div ?B + 1) * ?B = n mod ?B - ?B" using m by (simp add: algebra_simps)
    with neg q lt show ?thesis by simp
  qed
qed

lemma sdiv_bounds:
  fixes n :: int
  assumes "in_int64 n"
  shows "\<bar>n sdiv 1000000000\<bar> \<le> 9223372036"
    and "\<bar>(n sdiv 1000000000) * 1000000000\<bar> \<le> \<bar>n\<bar>"
proof -
  let ?B = "1000000000 :: int"
  from assms have "\<bar>n\<bar> \<le> 2 ^ 63" by (auto simp: in_int64_def)
  then have "\<bar>n\<bar> div ?B \<le> 2 ^ 63 div ?B" by (rule zdiv_mono1) simp
  moreover have a: "\<bar>n sdiv ?B\<bar> = \<bar>n\<bar> div ?B"
    by (cases "n = 0") (simp_all add: signed_divide_int_def abs_mult abs_sgn_eq)
  ultimately show "\<bar>n sdiv ?B\<bar> \<le> 9223372036" by simp
  have "\<bar>n\<bar> div ?B * ?B \<le> \<bar>n\<bar>" by simp
  then show "\<bar>(n sdiv ?B) * ?B\<bar> \<le> \<bar>n\<bar>" using a by (simp add: abs_mult)
qed

lemma Unix_0_eq:
  assumes "in_int64 n"
  shows "Unix 0 n = \<lparr>sec = n div 1000000000 + unixToInternal, nsec = n mod 1000000000\<rparr>"
proof -
  let ?B = "1000000000 :: int"
  let ?q = "n sdiv ?B"
  from assms have n: "- (2 ^ 63) \<le> n" "n < 2 ^ 63" by (simp_all add: in_int64_def)
  note b = sdiv_bounds [OF assms]
  have w1: "wrap64 ?q = ?q" using b(1) by (intro wrap64_id) (auto simp: in_int64_def)
  have w2: "wrap64 (?q * ?B) = ?q * ?B"
    using b(1) by (intro wrap64_id) (auto simp: in_int64_def)
  have r: "\<bar>n - ?q * ?B\<bar> < ?B"
    using minus_sdiv_mult_eq_smod [of n ?B]
    by (simp add: signed_modulo_int_def abs_mult abs_sgn_eq)
  have w3: "wrap64 (n - ?q * ?B) = n - ?q * ?B"
    using r by (intro wrap64_id) (auto simp: in_int64_def)
  have w4: "wrap64 (?q - 1) = ?q - 1" using b(1) by (intro wrap64_id) (auto simp: in_int64_def)
  have w5: "wrap64 (n - ?q * ?B + ?B) = n - ?q * ?B + ?B"
    using r by (intro wrap64_id) (auto simp: in_int64_def)
  have w6: "wrap64 (?q + unixToInternal) = ?q + unixToInternal"
    using b(1) by (intro wrap64_id) (auto simp: in_int64_def unixToInternal_val)
  have w7: "wrap64 (?q - 1 + unixToInternal) = ?q - 1 + unixToInternal"
    using b(1) by (intro wrap64_id) (auto simp: in_int64_def unixToInternal_val)
  have w8: "wrap64 unixToInternal = unixToInternal"
    by (intro wrap64_id) (auto simp: in_int64_def unixToInternal_val)
  have "Unix 0 n =
     (case (if n < 0 \<or> n \<ge> ?B then
           (if n - ?q * ?B < 0 then (?q - 1, n - ?q * ?B + ?B) else (?q, n - ?q * ?B))
          else (0, n)) of (s, ns) \<Rightarrow> \<lparr>sec = s + unixToInternal, nsec = ns\<rparr>)"
    by (simp add: Unix_def Let_def unixTime_def w1 w2 w3 w4 w5 w6 w7 w8)
  then show ?thesis by (simp only: sdiv_normalise) simp
qed

lemma UnixNano_Unix: "in_int64 n \<Longrightarrow> UnixNano (Unix 0 n) = n"
  by (simp add: UnixNano_eq Unix_0_eq internalToUnix_def wrap64_id)

lemma Unix_not_zero: "in_int64 n \<Longrightarrow> \<not> IsZero (Unix 0 n)"
proof -
  assume a: "in_int64 n"
  then have "- (2 ^ 63) \<le> n" by (simp add: in_int64_def)
  then have "(- (2 ^ 63)) div 1000000000 \<le> n div 1000000000" by (rule zdiv_mono1) simp
  then show ?thesis using a by (simp add: Unix_0_eq IsZero_def unixToInternal_val)
qed

lemma Unix_UnixNano:
  assumes "valid_time t" "nanos_in_int64 t"
  shows "Unix 0 (UnixNano t) = t"
proof -
  let ?s = "sec t + internalToUnix"
  from assms(2) have u: "UnixNano t = ?s * 1000000000 + nsec t"
    by (simp add: UnixNano_eq nanos_in_int64_def wrap64_id)
  from assms(1) have ns: "0 \<le> nsec t" "nsec t < 1000000000" by (simp_all add: valid_time_def)
  then have "(?s * 1000000000 + nsec t) div 1000000000 = ?s"
    and "(?s * 1000000000 + nsec t) mod 1000000000 = nsec t"
    by (simp_all only: div_mult_self3 mod_mult_self3) simp_all
  then show ?thesis
    using assms(2) by (simp add: u Unix_0_eq nanos_in_int64_def internalToUnix_def)
qed

section \<open>Properties of streams: decoding what serializeAccount wrote\<close>

lemma decode_known:
  assumes "\<not> ovf" "\<not> t < minT" "getRecord records t idx = (Some rec, newIdx)"
    and "decoder rec (val @ rest) len s = Inr (s', rest)"
  shows "decode records pt minT idx ovf s (WriteVarInt t @ WriteVarInt len @ val @ rest) =
         decode records (pt(t \<mapsto> None)) (t + 1) newIdx (t = - 1) s' rest"
proof -
  obtain b bs where w: "WriteVarInt t = b # bs"
    using length_WriteVarInt [of t] by (cases "WriteVarInt t") auto
  have "length rest < length (WriteVarInt t @ WriteVarInt len @ val @ rest)"
    by (simp add: w)
  with assms show ?thesis
    by (simp add: decode_step)
qed

lemma rec_sel [simp]:
  "recTyp (MakePrimitiveRecord_uint8 t p8) = t"
  "recTyp (MakePrimitiveRecord_uint64 t p64) = t"
  "recTyp (MakePrimitiveRecord_bytes t pb) = t"
  "recTyp (newHashMapRecord t ordh ph) = t"
  "recTyp (newPaymentEntryMapRecord t orde pe) = t"
  "Size (MakePrimitiveRecord_uint8 t p8) s = 1"
  "Size (MakePrimitiveRecord_uint64 t p64) s = 8"
  "Size (MakePrimitiveRecord_bytes t pb) s = of_nat (length (load pb s))"
  "Size (newHashMapRecord t ordh ph) s = hashMapRecordSize (load ph s)"
  "Size (newPaymentEntryMapRecord t orde pe) s = paymentEntryMapRecordSize (load pe s)"
  "encoder (MakePrimitiveRecord_uint8 t p8) s = Inr (EUint8 (load p8 s))"
  "encoder (MakePrimitiveRecord_uint64 t p64) s = Inr (EUint64 (load p64 s))"
  "encoder (MakePrimitiveRecord_bytes t pb) s = Inr (EVarBytes (load pb s))"
  "encoder (newHashMapRecord t ordh ph) s = HashMapEncoder ordh (load ph s)"
  "encoder (newPaymentEntryMapRecord t orde pe) s = PaymentEntryMapEncoder orde (load pe s)"
  by (simp_all add: MakePrimitiveRecord_uint8_def MakePrimitiveRecord_uint64_def
        MakePrimitiveRecord_bytes_def newHashMapRecord_def newPaymentEntryMapRecord_def)

lemma decoder_uint8:
  "decoder (MakePrimitiveRecord_uint8 t p) (EUint8 v @ rest) 1 s = Inr (snd p v s, rest)"
  by (simp add: MakePrimitiveRecord_uint8_def store_def DUint8_append)

lemma decoder_uint64:
  "decoder (MakePrimitiveRecord_uint64 t p) (EUint64 v @ rest) 8 s = Inr (snd p v s, rest)"
  by (simp add: MakePrimitiveRecord_uint64_def store_def DUint64_append)

lemma decoder_bytes:
  "length b < 2 ^ 64 \<Longrightarrow>
   decoder (MakePrimitiveRecord_bytes t p) (EVarBytes b @ rest) (of_nat (length b)) s =
     Inr (snd p b s, rest)"
  by (simp add: MakePrimitiveRecord_bytes_def store_def DVarBytes_append)

lemma decoder_hashMap:
  assumes "finite S" "card S < 2 ^ 64" "hashOrder ord S" "\<forall>h \<in> S. is_hash h"
    and "HashMapEncoder ord S = Inr bs"
  shows "decoder (newHashMapRecord t ord' p) (bs @ rest) l s = Inr (snd p S s, rest)"
  using HashMap_roundtrip [OF assms] by (simp add: newHashMapRecord_def store_def)

lemma decoder_paymentEntryMap:
  assumes "card (dom m) < 2 ^ 64" "entryOrder ord m" "\<forall>h \<in> dom m. is_hash h"
    and "PaymentEntryMapEncoder ord m = Inr bs"
  shows "decoder (newPaymentEntryMapRecord t ord' p) (bs @ rest) l s =
           Inr (snd p (map_option (map_option readBack) \<circ> m) s, rest)"
  using PaymentEntryMap_roundtrip [OF assms] by (simp add: newPaymentEntryMapRecord_def store_def)


lemma decode_step2:
  "\<not> ovf \<Longrightarrow> \<not> t < minT \<Longrightarrow>
   decode records pt minT idx ovf s (WriteVarInt t @ WriteVarInt len @ rest) =
     (case getRecord records t idx of
        (Some rec, newIdx) \<Rightarrow>
          (case decoder rec rest len s of
             Inl e \<Rightarrow> Inl (eofToUnexpected e)
           | Inr (s', r3) \<Rightarrow>
               if length r3 \<le> length rest then
                 decode records (pt(t \<mapsto> None)) (t + 1) newIdx (t = - 1) s' r3
               else if length r3 < length (WriteVarInt t @ WriteVarInt len @ rest) then
                 decode records (pt(t \<mapsto> None)) (t + 1) newIdx (t = - 1) s' r3
               else Inl ErrNoProgress)
      | (None, newIdx) \<Rightarrow>
          if length rest < unat len then Inl ErrUnexpectedEOF
          else decode records (pt(t \<mapsto> Some (take (unat len) rest))) (t + 1) newIdx (t = - 1) s
                 (drop (unat len) rest))"
proof -
  assume a: "\<not> ovf" "\<not> t < minT"
  obtain b bs where w: "WriteVarInt t = b # bs"
    using length_WriteVarInt [of t] by (cases "WriteVarInt t") auto
  show ?thesis
    by (simp add: decode_step [OF a] split: prod.split option.split sum.split) (simp add: w)
qed

lemma decoder_bytes8:
  "length b = 8 \<Longrightarrow>
   decoder (MakePrimitiveRecord_bytes t p) (EVarBytes b @ rest) 8 s = Inr (snd p b s, rest)"
  using decoder_bytes [of b t p rest s] by simp

lemma ptr_simps [simp]:
  "load p_id = id_var" "snd p_id = (\<lambda>v s. s\<lparr>id_var := v\<rparr>)"
  "load p_accountType = accountType" "snd p_accountType = (\<lambda>v s. s\<lparr>accountType := v\<rparr>)"
  "load p_initialBalance = initialBalance"
  "snd p_initialBalance = (\<lambda>v s. s\<lparr>initialBalance := v\<rparr>)"
  "load p_currentBalance = currentBalance"
  "snd p_currentBalance = (\<lambda>v s. s\<lparr>currentBalance := v\<rparr>)"
  "load p_lastUpdate = lastUpdate" "snd p_lastUpdate = (\<lambda>v s. s\<lparr>lastUpdate := v\<rparr>)"
  "load p_expirationDate = expirationDate"
  "snd p_expirationDate = (\<lambda>v s. s\<lparr>expirationDate := v\<rparr>)"
  "load p_invoices = invoices" "snd p_invoices = (\<lambda>v s. s\<lparr>invoices := v\<rparr>)"
  "load p_payments = payments" "snd p_payments = (\<lambda>v s. s\<lparr>payments := v\<rparr>)"
  by (simp_all add: fun_eq_iff load_def p_id_def p_accountType_def p_initialBalance_def
        p_currentBalance_def p_lastUpdate_def p_expirationDate_def p_invoices_def p_payments_def)

lemmas type_defs = typeID_def typeAccountType_def typeInitialBalance_def typeCurrentBalance_def
  typeLastUpdate_def typeExpirationDate_def typeInvoices_def typePayments_def

lemma serialize_decode:
  assumes wf: "wf_account a" and oi: "hashOrder ordI (Invoices a)"
    and op: "entryOrder ordP (Payments a)" and nn: "no_nil_entries (Payments a)"
  shows "\<exists>content pt. serializeAccount ordI ordP (Some a) = Inr content \<and>
           DecodeWithParsedTypes deserializeRecords deserializeVars content =
             Inr (pt, decodedVars a) \<and>
           (pt typeExpirationDate = Some None \<longleftrightarrow> \<not> IsZero (ExpirationDate a))"
proof -
  obtain bi where bi: "HashMapEncoder ordI (Invoices a) = Inr bi"
    by (simp add: HashMapEncoder_def)
  from encodeEntries_ok [OF entryOrder_no_nil [OF op nn]]
  obtain bp where bp: "PaymentEntryMapEncoder ordP (Payments a) = Inr bp"
    by (auto simp: PaymentEntryMapEncoder_def)
  from wf have len: "length (ID a) = 8" and fin: "finite (Invoices a)"
    and ci: "card (Invoices a) < 2 ^ 64" and hi: "\<forall>h \<in> Invoices a. is_hash h"
    and cp: "card (dom (Payments a)) < 2 ^ 64" and hp: "\<forall>h \<in> dom (Payments a). is_hash h"
    by (auto simp: wf_account_def)
  note di = decoder_hashMap [OF fin ci oi hi bi]
  note dp = decoder_paymentEntryMap [OF cp op hp bp, where rest = "[]", simplified]
  show ?thesis
  proof (cases "IsZero (ExpirationDate a)")
    case True
    then show ?thesis
      by (simp add: serializeAccount_def serializeRecords_def NewStream_def serializeVars_def
            bi bp type_defs DecodeWithParsedTypes_def deserializeRecords_def deserializeVars_def
            decode_step2 decode_nil getRecord_def decoder_uint8 decoder_uint64 decoder_bytes8
            di dp len decodedVars_def)
  next
    case False
    then show ?thesis
      by (simp add: serializeAccount_def serializeRecords_def NewStream_def serializeVars_def
            bi bp type_defs DecodeWithParsedTypes_def deserializeRecords_def deserializeVars_def
            decode_step2 decode_nil getRecord_def decoder_uint8 decoder_uint64 decoder_bytes8
            di dp len decodedVars_def)
  qed
qed

lemma NewStream_deserializeRecords: "NewStream deserializeRecords = Inr deserializeRecords"
  by (simp add: NewStream_def deserializeRecords_def type_defs)

lemma copyID_8: "length b = 8 \<Longrightarrow> copyID b = b"
  by (simp add: copyID_def)

lemma IsZero_eq: "IsZero t \<longleftrightarrow> t = zeroTime"
  by (cases t) (simp add: IsZero_def zeroTime_def)

lemma in_int64_UnixNano: "in_int64 (UnixNano t)"
  by (simp add: UnixNano_def in_int64_wrap64)

lemma deserialize_serialized:
  assumes wf: "wf_account a" and oi: "hashOrder ordI (Invoices a)"
    and op: "entryOrder ordP (Payments a)" and nn: "no_nil_entries (Payments a)"
  shows "\<exists>content. serializeAccount ordI ordP (Some a) = Inr content \<and>
           deserializeAccount content =
             Inr \<lparr>ID = ID a, Type = Type a, InitialBalance = InitialBalance a,
                  CurrentBalance = CurrentBalance a,
                  LastUpdate = Unix 0 (UnixNano (LastUpdate a)),
                  ExpirationDate =
                    (if IsZero (ExpirationDate a) then zeroTime
                     else Unix 0 (UnixNano (ExpirationDate a))),
                  Invoices = Invoices a,
                  Payments = map_option (map_option readBack) \<circ> Payments a\<rparr>"
proof -
  from serialize_decode [OF assms] obtain content pt
    where c: "serializeAccount ordI ordP (Some a) = Inr content"
      and d: "DecodeWithParsedTypes deserializeRecords deserializeVars content =
                Inr (pt, decodedVars a)"
      and e: "pt typeExpirationDate = Some None \<longleftrightarrow> \<not> IsZero (ExpirationDate a)"
    by blast
  from wf have len: "length (ID a) = 8" and cb: "in_int64 (CurrentBalance a)"
    by (simp_all add: wf_account_def)
  have "deserializeAccount content = Inr \<lparr>ID = ID a, Type = Type a,
          InitialBalance = InitialBalance a, CurrentBalance = CurrentBalance a,
          LastUpdate = Unix 0 (UnixNano (LastUpdate a)),
          ExpirationDate =
            (if IsZero (ExpirationDate a) then zeroTime
             else Unix 0 (UnixNano (ExpirationDate a))),
          Invoices = Invoices a,
          Payments = map_option (map_option readBack) \<circ> Payments a\<rparr>"
    using e
    by (simp add: deserializeAccount_def NewStream_deserializeRecords d decodedVars_def
          copyID_8 [OF len] int64_roundtrip [OF cb] int64_roundtrip [OF in_int64_UnixNano])
  with c show ?thesis by blast
qed

section \<open>Properties of streams: the expiration date in any decoded stream\<close>

lemma word_lt6_cases:
  "(t :: uint64) < 6 \<Longrightarrow> t = 0 \<or> t = 1 \<or> t = 2 \<or> t = 3 \<or> t = 4 \<or> t = 5"
proof -
  assume "t < 6"
  then have "unat t < 6" by (simp add: word_less_nat_alt)
  then have "unat t = 0 \<or> unat t = 1 \<or> unat t = 2 \<or> unat t = 3 \<or> unat t = 4 \<or> unat t = 5"
    by arith
  then show ?thesis by (auto simp: word_unat_eq_iff)
qed

lemma nat_le5_cases:
  "(i :: nat) \<le> 5 \<Longrightarrow> i = 0 \<or> i = 1 \<or> i = 2 \<or> i = 3 \<or> i = 4 \<or> i = 5"
  by arith

lemma getRecord_expiration:
  assumes "idx \<le> 5"
  shows "getRecord deserializeRecords typeExpirationDate idx =
           (Some (MakePrimitiveRecord_uint64 typeExpirationDate p_expirationDate), 6)"
  using nat_le5_cases [OF assms]
  by (elim disjE) (simp_all add: getRecord_def deserializeRecords_def type_defs)

lemma getRecord_below_expiration:
  assumes "idx \<le> 5" "t < typeExpirationDate"
  shows "snd (getRecord deserializeRecords t idx) \<le> 5"
  using nat_le5_cases [OF assms(1)] word_lt6_cases [OF assms(2) [unfolded typeExpirationDate_def]]
  by (elim disjE) (simp_all add: getRecord_def deserializeRecords_def type_defs)

lemma decode_expiration_nil:
  "decode records pt minT idx ovf s r = Inr (pt', s') \<Longrightarrow>
   records = deserializeRecords \<Longrightarrow>
   (\<not> ovf \<and> minT \<le> typeExpirationDate \<longrightarrow> idx \<le> 5) \<Longrightarrow>
   nilOrAbsent pt \<Longrightarrow> nilOrAbsent pt'"
proof (induction records pt minT idx ovf s r rule: decode.induct)
  case (1 records parsedTypes minT recordIdx overflow s r)
  note R = \<open>records = deserializeRecords\<close>
  show ?case
  proof (cases "ReadVarInt r")
    case (Inl e)
    with "1.prems"(1,4) show ?thesis
      by (subst (asm) decode.simps) (simp split: if_splits)
  next
    case (Inr x)
    then obtain t r1 where tr: "ReadVarInt r = Inr (t, r1)" by (cases x) auto
    show ?thesis
    proof (cases "overflow \<or> t < minT")
      case True
      with "1.prems"(1) tr show ?thesis by (subst (asm) decode.simps) simp
    next
      case False
      then have novf: "\<not> overflow" and ge: "minT \<le> t" by auto
      show ?thesis
      proof (cases "ReadVarInt r1")
        case (Inl e)
        with "1.prems"(1) tr False show ?thesis by (subst (asm) decode.simps) simp
      next
        case (Inr y)
        then obtain len r2 where lr: "ReadVarInt r1 = Inr (len, r2)" by (cases y) auto
        obtain res newIdx where g: "getRecord records t recordIdx = (res, newIdx)"
          by (cases "getRecord records t recordIdx")
        have inv': "\<not> (t = - 1) \<and> t + 1 \<le> typeExpirationDate \<longrightarrow> newIdx \<le> 5"
        proof (intro impI, elim conjE)
          assume "t \<noteq> - 1" "t + 1 \<le> typeExpirationDate"
          then have lt: "t < typeExpirationDate" by (simp add: inc_less_eq_iff)
          with ge novf "1.prems"(3) have "recordIdx \<le> 5" by auto
          from getRecord_below_expiration [OF this lt] g R show "newIdx \<le> 5" by simp
        qed
        show ?thesis
        proof (cases res)
          case None
          have ne: "t \<noteq> typeExpirationDate"
          proof
            assume "t = typeExpirationDate"
            with ge novf "1.prems"(3) have "recordIdx \<le> 5" by auto
            from getRecord_expiration [OF this] g R None \<open>t = typeExpirationDate\<close>
            show False by simp
          qed
          from "1.prems"(1) tr lr g None False
          obtain c: "\<not> length r2 < unat len"
            "length (drop (unat len) r2) < length r"
            "decode records (parsedTypes(t \<mapsto> Some (take (unat len) r2))) (t + 1) newIdx
               (t = - 1) s (drop (unat len) r2) = Inr (pt', s')"
            by (subst (asm) decode.simps) (simp split: if_splits)
          have "nilOrAbsent (parsedTypes(t \<mapsto> Some (take (unat len) r2)))"
            using "1.prems"(4) ne by (simp add: nilOrAbsent_def)
          with "1.IH"(1) [OF tr refl False lr refl g [symmetric] None c(1,2,3) R inv']
          show ?thesis by blast
        next
          case (Some rec)
          from "1.prems"(1) tr lr g Some False
          obtain s1 r3 where c: "decoder rec r2 len s = Inr (s1, r3)" "length r3 < length r"
            "decode records (parsedTypes(t \<mapsto> None)) (t + 1) newIdx (t = - 1) s1 r3 =
               Inr (pt', s')"
            by (subst (asm) decode.simps) (auto split: if_splits sum.splits)
          have "nilOrAbsent (parsedTypes(t \<mapsto> None))"
            using "1.prems"(4) by (simp add: nilOrAbsent_def)
          with "1.IH"(2) [OF tr refl False lr refl g [symmetric] Some c(1) refl c(2,3) R inv']
          show ?thesis by blast
        qed
      qed
    qed
  qed
qed

lemma zeroTime_IsZero: "IsZero zeroTime"
  by (simp add: IsZero_def zeroTime_def)

lemma serializeRecords_expiration:
  "typeExpirationDate \<in> recTyp ` set (serializeRecords ordI ordP a) \<longleftrightarrow>
     \<not> IsZero (ExpirationDate a)"
  by (cases "IsZero (ExpirationDate a)") (simp_all add: serializeRecords_def type_defs)

lemma DecodeWithParsedTypes_nilOrAbsent:
  "DecodeWithParsedTypes deserializeRecords s0 content = Inr (pt, s) \<Longrightarrow> nilOrAbsent pt"
  unfolding DecodeWithParsedTypes_def
  by (erule decode_expiration_nil) (simp_all add: nilOrAbsent_def)

lemma deserialize_expiration:
  assumes "DecodeWithParsedTypes deserializeRecords deserializeVars content = Inr (pt, s)"
  shows "\<exists>a'. deserializeAccount content = Inr a' \<and>
           (IsZero (ExpirationDate a') \<longleftrightarrow> typeExpirationDate \<notin> dom pt)"
proof -
  from assms have n: "nilOrAbsent pt" by (rule DecodeWithParsedTypes_nilOrAbsent)
  show ?thesis
  proof (cases "pt typeExpirationDate = Some None")
    case True
    then show ?thesis
      using assms
      by (simp add: deserializeAccount_def NewStream_deserializeRecords Unix_not_zero
            in_int64_of_uint64 dom_def)
  next
    case False
    with n have "pt typeExpirationDate = None" by (simp add: nilOrAbsent_def)
    then show ?thesis
      using assms
      by (simp add: deserializeAccount_def NewStream_deserializeRecords zeroTime_IsZero dom_def)
  qed
qed

lemma decode_expiration_only:
  "DecodeWithParsedTypes deserializeRecords deserializeVars
     (WriteVarInt typeExpirationDate @ WriteVarInt 8 @ EUint64 0) =
   Inr ([typeExpirationDate \<mapsto> None], deserializeVars)"
  using decoder_uint64 [of typeExpirationDate p_expirationDate 0 "[]" deserializeVars]
  by (simp add: DecodeWithParsedTypes_def decode_step2 decode_nil getRecord_def
        deserializeRecords_def type_defs deserializeVars_def)

section \<open>The example accounts\<close>

lemma exampleAccount_wf: "wf_account exampleAccount"
  by (simp add: exampleAccount_def wf_account_def in_int64_def in_int32_def valid_time_def
        is_hash_def exampleInvoice_def examplePayment_def)

lemma exampleAccount_invoices: "hashOrder [exampleInvoice] (Invoices exampleAccount)"
  by (simp add: exampleAccount_def hashOrder_def)

lemma exampleAccount_payments:
  "entryOrder [(examplePayment, Some \<lparr>Status = 2, FullAmount = 400\<rparr>)] (Payments exampleAccount)"
  by (simp add: exampleAccount_def entryOrder_def)

lemma exampleAccount_no_nil: "no_nil_entries (Payments exampleAccount)"
  by (simp add: exampleAccount_def no_nil_entries_def)

lemma exampleAccount_status: "status_in_byte (Payments exampleAccount)"
  by (simp add: exampleAccount_def status_in_byte_def)

lemma exampleAccount_expiration: "nanos_in_int64 (ExpirationDate exampleAccount)"
  by (simp add: exampleAccount_def nanos_in_int64_def in_int64_def internalToUnix_def
        unixToInternal_def)

lemma oddAccount_wf: "wf_account oddAccount"
  by (simp add: oddAccount_def wf_account_def in_int64_def in_int32_def valid_time_def
        is_hash_def examplePayment_def)

lemma oddAccount_invoices: "hashOrder [] (Invoices oddAccount)"
  by (simp add: oddAccount_def hashOrder_def)

lemma oddAccount_payments:
  "entryOrder [(examplePayment, Some \<lparr>Status = 256, FullAmount = 400\<rparr>)] (Payments oddAccount)"
  by (simp add: oddAccount_def entryOrder_def)

lemma oddAccount_no_nil: "no_nil_entries (Payments oddAccount)"
  by (simp add: oddAccount_def no_nil_entries_def)

lemma oddAccount_UnixNano: "UnixNano (ExpirationDate oddAccount) = - 8032952073709551616"
  by (simp add: oddAccount_def UnixNano_eq internalToUnix_def unixToInternal_def wrap64_def
        int64_of_uint64_def uint64_of_int64_def)

lemma oddAccount_Unix:
  "Unix 0 (UnixNano (ExpirationDate oddAccount)) = \<lparr>sec = 54102644726, nsec = 290448384\<rparr>"
  by (simp add: oddAccount_UnixNano Unix_0_eq in_int64_def unixToInternal_def)

lemma oddAccount_readBack:
  "map_option (map_option readBack) \<circ> Payments oddAccount =
     [examplePayment \<mapsto> Some \<lparr>Status = 0, FullAmount = 400\<rparr>]"
  by (auto simp: oddAccount_def readBack_def fun_eq_iff)

lemma oddAccount_lastUpdate_UnixNano:
  "UnixNano (LastUpdate oddAccount) = - 6795364578871345152"
  by (simp add: oddAccount_def UnixNano_eq internalToUnix_def unixToInternal_def wrap64_def
        int64_of_uint64_def uint64_of_int64_def)

lemma oddAccount_lastUpdate:
  "Unix 0 (UnixNano (LastUpdate oddAccount)) = \<lparr>sec = 55340232221, nsec = 128654848\<rparr>"
  by (simp add: oddAccount_lastUpdate_UnixNano Unix_0_eq in_int64_def unixToInternal_def)

lemma exampleAccount_lastUpdate: "nanos_in_int64 (LastUpdate exampleAccount)"
  by (simp add: exampleAccount_def nanos_in_int64_def in_int64_def internalToUnix_def
        unixToInternal_def)

section \<open>Properties of the numeric codec\<close>

lemma of_char_digitChar: "d < 10 \<Longrightarrow> (of_char (digitChar d) :: nat) = 48 + d"
  by (simp add: digitChar_def)

lemma isDigit_digitChar: "d < 10 \<Longrightarrow> isDigit (digitChar d)"
  by (simp add: isDigit_def of_char_digitChar)

lemma digitValue_digitChar: "d < 10 \<Longrightarrow> digitValue (digitChar d) = d"
  by (simp add: digitValue_def of_char_digitChar)

lemma digitChar_digitValue: "isDigit c \<Longrightarrow> digitChar (digitValue c) = c"
  by (simp add: digitChar_def digitValue_def isDigit_def)

lemma length_fixedDecimal [simp]: "length (fixedDecimal n v) = n"
  by (induction n arbitrary: v) auto

lemma parseDecimal_append:
  "parseDecimal (xs @ ys) acc =
     (case parseDecimal xs acc of None \<Rightarrow> None | Some a \<Rightarrow> parseDecimal ys a)"
  by (induction xs arbitrary: acc) auto

lemma parseDecimal_fixedDecimal:
  "parseDecimal (fixedDecimal n v) acc = Some (acc * 10 ^ n + v mod 10 ^ n)"
proof (induction n arbitrary: v acc)
  case 0
  then show ?case by simp
next
  case (Suc n)
  have d: "v mod 10 < 10" by simp
  have "v div 10 mod 10 ^ n * 10 + v mod 10 = v mod (10 * 10 ^ n)"
    by (simp add: mod_mult2_eq)
  then show ?case
    by (simp add: parseDecimal_append Suc isDigit_digitChar [OF d] digitValue_digitChar [OF d]
          algebra_simps)
qed

lemma StrToUint64_Uint64ToStr: "StrToUint64 (Uint64ToStr u) = Inr u"
proof -
  have "unat u < 2 ^ 64" using unsigned_less [of u, where 'a = nat] by simp
  moreover have "(2 :: nat) ^ 64 < 10 ^ 20" by simp
  ultimately have "unat u mod 10 ^ 20 = unat u" by simp
  with \<open>unat u < 2 ^ 64\<close> show ?thesis
    by (simp add: StrToUint64_def Uint64ToStr_def codecWidth_def parseDecimal_fixedDecimal)
qed

lemma parseDecimal_Some_digits:
  "parseDecimal s acc = Some v \<Longrightarrow> list_all isDigit s"
  by (induction s arbitrary: acc) (auto split: if_splits)

lemma parseDecimal_None: "\<not> list_all isDigit s \<Longrightarrow> parseDecimal s acc = None"
  by (induction s arbitrary: acc) auto

lemma digitValue_less: "isDigit c \<Longrightarrow> digitValue c < 10"
  by (auto simp: isDigit_def digitValue_def)

lemma fixedDecimal_parseDecimal:
  "parseDecimal s acc = Some v \<Longrightarrow> fixedDecimal (length s) v = s"
proof (induction s arbitrary: v rule: rev_induct)
  case Nil
  then show ?case by simp
next
  case (snoc c xs)
  from snoc.prems obtain a where a: "parseDecimal xs acc = Some a"
    and c: "isDigit c" and v: "v = a * 10 + digitValue c"
    by (auto simp: parseDecimal_append split: option.splits if_splits)
  from digitValue_less [OF c] have "v div 10 = a" "v mod 10 = digitValue c"
    by (simp_all add: v)
  with snoc.IH [OF a] c show ?case by (simp add: digitChar_digitValue)
qed

lemma StrToUint64_Inr:
  assumes "StrToUint64 s = Inr u"
  shows "length s = codecWidth \<and> list_all isDigit s \<and> s = Uint64ToStr u"
proof -
  from assms obtain v where len: "length s = codecWidth" and p: "parseDecimal s 0 = Some v"
    and v: "v < 2 ^ 64" and u: "u = of_nat v"
    by (auto simp: StrToUint64_def split: if_splits option.splits)
  from v have "unat u = v" by (simp add: u unat_of_nat take_bit_nat_eq_self)
  with fixedDecimal_parseDecimal [OF p] len have "s = Uint64ToStr u"
    by (simp add: Uint64ToStr_def)
  with len parseDecimal_Some_digits [OF p] show ?thesis by simp
qed

lemma StrToUint64_malformed:
  assumes "length s \<noteq> codecWidth \<or> \<not> list_all isDigit s"
  shows "StrToUint64 s = Inl FormatError"
  using assms by (auto simp: StrToUint64_def parseDecimal_None)

lemma char_of_55: "char_of (55 :: nat) = CHR ''7''"
  by code_simp

lemma decimal_7: "Sprintf_d 7 = ''7''"
  by (simp add: Sprintf_d_def decimal.simps digitChar_def char_of_55)

lemma DecodeString_0a: "DecodeString ''0a'' = Inr [10]"
  by (simp add: fromHexChar_def)

section \<open>Properties of the privacy mapper\<close>

lemma emptyNamespace_ok: "namespace_ok emptyNamespace"
  by (simp add: namespace_ok_def emptyNamespace_def)

lemma mapper_ok_empty: "mapper_ok Map.empty"
  by (simp add: mapper_ok_def namespaceOf_def emptyNamespace_ok)

lemma mapper_ok_clear: "mapper_ok m \<Longrightarrow> mapper_ok (clear m sid)"
  by (simp add: mapper_ok_def namespaceOf_def clear_def emptyNamespace_ok)

lemma namespace_ok_add:
  assumes ok: "namespace_ok ns" and new: "realToPseudoPairs ns real = None"
    and fresh: "pseudo \<notin> dom (pseudoToRealPairs ns)"
  shows "namespace_ok \<lparr>realToPseudoPairs = (realToPseudoPairs ns)(real \<mapsto> pseudo),
                        pseudoToRealPairs = (pseudoToRealPairs ns)(pseudo \<mapsto> real)\<rparr>"
proof -
  from ok have fin: "finite (dom (pseudoToRealPairs ns))"
    and iff: "\<And>r p. realToPseudoPairs ns r = Some p \<longleftrightarrow> pseudoToRealPairs ns p = Some r"
    by (simp_all add: namespace_ok_def)
  from new iff have a: "\<And>p. pseudoToRealPairs ns p \<noteq> Some real" by (metis option.distinct(1))
  from fresh iff have b: "\<And>r. realToPseudoPairs ns r \<noteq> Some pseudo" by (metis domI)
  show ?thesis
    unfolding namespace_ok_def using fin iff a b by auto
qed

lemma realToPseudo_ok:
  assumes "freshGen gen" "mapper_ok m"
  shows "mapper_ok (snd (realToPseudo gen m sid real))"
proof (cases "realToPseudoPairs (namespaceOf m sid) real")
  case (Some p)
  with assms(2) show ?thesis by (simp add: realToPseudo_def)
next
  case None
  let ?ns = "namespaceOf m sid"
  from assms(2) have ok: "namespace_ok ?ns" by (simp add: mapper_ok_def)
  then have "finite (dom (pseudoToRealPairs ?ns))" by (simp add: namespace_ok_def)
  with assms(1) have "gen (dom (pseudoToRealPairs ?ns)) \<notin> dom (pseudoToRealPairs ?ns)"
    by (simp add: freshGen_def)
  from namespace_ok_add [OF ok None this] assms(2) None show ?thesis
    by (simp add: realToPseudo_def mapper_ok_def namespaceOf_def Let_def)
qed

lemma reachable_ok: "reachable gen m \<Longrightarrow> freshGen gen \<Longrightarrow> mapper_ok m"
proof (induction rule: reachable.induct)
  case initial
  show ?case by (rule mapper_ok_empty)
next
  case (mapped m sid real)
  then show ?case by (simp add: realToPseudo_ok)
next
  case (cleared m sid)
  then show ?case by (simp add: mapper_ok_clear)
qed

lemma realToPseudo_stored:
  "realToPseudoPairs (namespaceOf (snd (realToPseudo gen m sid real)) sid) real =
     Some (fst (realToPseudo gen m sid real))"
  by (cases "realToPseudoPairs (namespaceOf m sid) real")
     (simp_all add: realToPseudo_def namespaceOf_def Let_def)

lemma realToPseudo_keeps:
  assumes "realToPseudoPairs (namespaceOf m sid) r = Some p"
  shows "realToPseudoPairs (namespaceOf (snd (realToPseudo gen m sid real)) sid) r = Some p"
  using assms
  by (cases "realToPseudoPairs (namespaceOf m sid) real")
     (auto simp: realToPseudo_def namespaceOf_def Let_def)

lemma mapper_ok_injective:
  assumes "mapper_ok m" "realToPseudoPairs (namespaceOf m sid) v1 = Some p1"
    "realToPseudoPairs (namespaceOf m sid) v2 = Some p2" "v1 \<noteq> v2"
  shows "p1 \<noteq> p2"
proof
  assume "p1 = p2"
  from assms(1) have "namespace_ok (namespaceOf m sid)" by (simp add: mapper_ok_def)
  with assms(2,3) \<open>p1 = p2\<close> have "Some v1 = Some v2"
    unfolding namespace_ok_def by metis
  with assms(4) show False by simp
qed

lemma mapper_ok_roundtrip:
  assumes "mapper_ok m" "realToPseudoPairs (namespaceOf m sid) v = Some p"
  shows "pseudoToReal m sid p = Inr v"
proof -
  from assms(1) have "namespace_ok (namespaceOf m sid)" by (simp add: mapper_ok_def)
  with assms(2) have "pseudoToRealPairs (namespaceOf m sid) p = Some v"
    by (simp add: namespace_ok_def)
  then show ?thesis by (simp add: pseudoToReal_def)
qed

lemma longerGen_fresh: "freshGen longerGen"
  unfolding freshGen_def
proof (intro allI impI)
  fix used :: "string set"
  assume fin: "finite used"
  show "longerGen used \<notin> used"
  proof
    assume "longerGen used \<in> used"
    then have "length (longerGen used) \<in> insert 0 (length ` used)" by simp
    moreover have "finite (insert 0 (length ` used))" using fin by simp
    ultimately have "length (longerGen used) \<le> Max (insert 0 (length ` used))"
      by (rule Max_ge [rotated])
    then show False by (simp add: longerGen_def)
  qed
qed

lemma longerGen_values: "longerGen {} = ''p''" "longerGen {''p''} = ''pp''"
  by (simp_all add: longerGen_def)

section \<open>The number of bytes the map encoders write\<close>

lemma length_encodeHashes:
  "\<forall>h \<in> set ord. is_hash h \<Longrightarrow> length (encodeHashes ord) = 32 * length ord"
  by (induction ord) (simp_all add: EBytes32_def is_hash_def)

lemma length_encodeEntries:
  "\<forall>(h, e) \<in> set ord. is_hash h \<Longrightarrow> encodeEntries ord = Inr bs \<Longrightarrow>
   length bs = 41 * length ord"
proof (induction ord arbitrary: bs)
  case Nil
  then show ?case by simp
next
  case (Cons p ord)
  from Cons.prems(2) obtain h e where p: "p = (h, Some e)"
    by (cases p; cases "snd p") auto
  from Cons.prems(2) p obtain bs' where bs': "encodeEntries ord = Inr bs'"
    and bs: "bs = EBytes32 h @ [word_of_int (Status e)] @ EUint64T (FullAmount e) @ bs'"
    by (auto split: sum.splits)
  from Cons.prems(1) p have "is_hash h" "\<forall>(h, e) \<in> set ord. is_hash h" by auto
  with Cons.IH [OF _ bs'] show ?case
    by (simp add: bs EBytes32_def EUint64T_def is_hash_def)
qed

lemma HashMapEncoder_length:
  assumes "hashOrder ord S" "\<forall>h \<in> S. is_hash h" "HashMapEncoder ord S = Inr bs"
  shows "length bs = length (WriteVarInt (of_nat (card S))) + 32 * card S"
proof -
  from assms(1) have "card S = length ord" "set ord = S"
    by (auto simp: hashOrder_def distinct_card)
  with assms(2,3) length_encodeHashes [of ord] show ?thesis
    by (auto simp: HashMapEncoder_def)
qed

lemma PaymentEntryMapEncoder_length:
  assumes "entryOrder ord m" "\<forall>h \<in> dom m. is_hash h" "PaymentEntryMapEncoder ord m = Inr bs"
  shows "length bs = length (WriteVarInt (of_nat (card (dom m)))) + 41 * card (dom m)"
proof -
  from assms(3) obtain bs' where bs': "encodeEntries ord = Inr bs'"
    and bs: "bs = WriteVarInt (of_nat (card (dom m))) @ bs'"
    by (auto simp: PaymentEntryMapEncoder_def split: sum.splits)
  have "\<forall>(h, e) \<in> set ord. is_hash h"
    using assms(1,2) by (auto dest: entryOrder_set)
  from length_encodeEntries [OF this bs'] entryOrder_card [OF assms(1)] show ?thesis
    by (simp add: bs)
qed

section \<open>The map codecs: round trip and record size\<close>

text \<open>
  C4. For every finite set of 32-byte hashes, and every order in which the encoder's
  loop may visit it, \<^verbatim>\<open>HashMapDecoder\<close> applied to the bytes written by
  \<^verbatim>\<open>HashMapEncoder\<close> returns the same set and consumes exactly those bytes. For
  every finite map from 32-byte hashes to (non-nil) payment entries whose status lies
  in [0, 255], \<^verbatim>\<open>PaymentEntryMapDecoder\<close> applied to the bytes written by
  \<^verbatim>\<open>PaymentEntryMapEncoder\<close> returns the same map: same hashes, same status, same
  amount. The number of entries is below \<open>2 ^ 63\<close>, as Go's \<^verbatim>\<open>len\<close> is an \<^verbatim>\<open>int\<close>.
\<close>

theorem map_codecs_roundtrip:
  assumes "hashOrder ordS S" "card S < 2 ^ 63" "\<forall>h \<in> S. is_hash h"
    and "entryOrder ordM m" "card (dom m) < 2 ^ 63" "\<forall>h \<in> dom m. is_hash h"
    and "no_nil_entries m" "status_in_byte m"
  shows "(\<exists>bs. HashMapEncoder ordS S = Inr bs \<and> HashMapDecoder bs l = Inr (S, [])) \<and>
         (\<exists>bs. PaymentEntryMapEncoder ordM m = Inr bs \<and>
               PaymentEntryMapDecoder bs l' = Inr (m, []))"
proof
  obtain bs where bs: "HashMapEncoder ordS S = Inr bs" by (simp add: HashMapEncoder_def)
  from assms(1) have "finite S" by (auto simp: hashOrder_def)
  moreover from assms(2) have "card S < 2 ^ 64" by simp
  ultimately have "HashMapDecoder (bs @ []) l = Inr (S, [])"
    using assms(1,3) bs by (rule HashMap_roundtrip)
  with bs show "\<exists>bs. HashMapEncoder ordS S = Inr bs \<and> HashMapDecoder bs l = Inr (S, [])"
    by simp
next
  from encodeEntries_ok [OF entryOrder_no_nil [OF assms(4,7)]]
  obtain bs where bs: "PaymentEntryMapEncoder ordM m = Inr bs"
    by (auto simp: PaymentEntryMapEncoder_def)
  from assms(5) have "card (dom m) < 2 ^ 64" by simp
  then have "PaymentEntryMapDecoder (bs @ []) l' = Inr (map_option (map_option readBack) \<circ> m, [])"
    using assms(4,6) bs by (rule PaymentEntryMap_roundtrip)
  with bs readBack_map_id [OF assms(7,8)]
  show "\<exists>bs. PaymentEntryMapEncoder ordM m = Inr bs \<and> PaymentEntryMapDecoder bs l' = Inr (m, [])"
    by simp
qed

theorem map_codecs_roundtrip_witness:
  "hashOrder [exampleInvoice] {exampleInvoice} \<and>
   entryOrder [(examplePayment, Some \<lparr>Status = 2, FullAmount = 1000\<rparr>)]
     [examplePayment \<mapsto> Some \<lparr>Status = 2, FullAmount = 1000\<rparr>] \<and>
   (\<exists>bs. HashMapEncoder [exampleInvoice] {exampleInvoice} = Inr bs \<and>
         HashMapDecoder bs 32 = Inr ({exampleInvoice}, [])) \<and>
   (\<exists>bs. PaymentEntryMapEncoder [(examplePayment, Some \<lparr>Status = 2, FullAmount = 1000\<rparr>)]
           [examplePayment \<mapsto> Some \<lparr>Status = 2, FullAmount = 1000\<rparr>] = Inr bs \<and>
         PaymentEntryMapDecoder bs 41 =
           Inr ([examplePayment \<mapsto> Some \<lparr>Status = 2, FullAmount = 1000\<rparr>], []))"
proof -
  let ?h = exampleInvoice and ?k = examplePayment
  let ?e = "Some \<lparr>Status = 2, FullAmount = 1000\<rparr>"
  have 1: "hashOrder [?h] {?h}" by (simp add: hashOrder_def)
  have 2: "card {?h} < 2 ^ 63" by simp
  have 3: "\<forall>h \<in> {?h}. is_hash h" by (simp add: is_hash_def exampleInvoice_def)
  have 4: "entryOrder [(?k, ?e)] [?k \<mapsto> ?e]" by (simp add: entryOrder_def)
  have 5: "card (dom [?k \<mapsto> ?e]) < 2 ^ 63" by simp
  have 6: "\<forall>h \<in> dom [?k \<mapsto> ?e]. is_hash h" by (simp add: is_hash_def examplePayment_def)
  have 7: "no_nil_entries [?k \<mapsto> ?e]" by (simp add: no_nil_entries_def)
  have 8: "status_in_byte [?k \<mapsto> ?e]" by (simp add: status_in_byte_def)
  show ?thesis
    using map_codecs_roundtrip [OF 1 2 3 4 5 6 7 8, of 32 41] 1 4 by simp
qed

text \<open>
  C3. The bytes written by each map encoder should be as many as the size closure of
  its record returns, 32 or 41 times the number of entries. They are not: for the
  empty map each encoder writes one byte, the count, and the size closure returns 0.
  The closures count the entries only, not the count that the encoders write before
  them.
\<close>

theorem map_record_size_empty:
  "HashMapEncoder [] {} = Inr [0] \<and> hashMapRecordSize {} = 0 \<and>
   PaymentEntryMapEncoder [] Map.empty = Inr [0] \<and> paymentEntryMapRecordSize Map.empty = 0"
  by (simp add: HashMapEncoder_def PaymentEntryMapEncoder_def WriteVarInt_def
        hashMapRecordSize_def paymentEntryMapRecordSize_def)

section \<open>serializeAccount and deserializeAccount: round trip\<close>

text \<open>
  C1, as amended. For every account whose payment entries are not nil and have a
  status in [0, 255], whose last update has a Unix time in nanoseconds that an
  \<^verbatim>\<open>int64\<close> holds, and whose expiration date is the zero time or has such a Unix
  time, and for every order in which the two map encoders may visit the maps,
  \<^verbatim>\<open>serializeAccount\<close> succeeds and \<^verbatim>\<open>deserializeAccount\<close> of its output returns
  an account with the same ID, Type, InitialBalance, CurrentBalance, LastUpdate (the
  same instant, to the nanosecond), ExpirationDate, Invoices and Payments.
\<close>

theorem serialize_deserialize_roundtrip:
  assumes "wf_account a" "hashOrder ordI (Invoices a)" "entryOrder ordP (Payments a)"
    and "no_nil_entries (Payments a)" "status_in_byte (Payments a)"
    and "nanos_in_int64 (LastUpdate a)"
    and "IsZero (ExpirationDate a) \<or> nanos_in_int64 (ExpirationDate a)"
  shows "\<exists>content a'. serializeAccount ordI ordP (Some a) = Inr content \<and>
           deserializeAccount content = Inr a' \<and>
           ID a' = ID a \<and> Type a' = Type a \<and> InitialBalance a' = InitialBalance a \<and>
           CurrentBalance a' = CurrentBalance a \<and>
           LastUpdate a' = LastUpdate a \<and>
           ExpirationDate a' = ExpirationDate a \<and>
           Invoices a' = Invoices a \<and> Payments a' = Payments a"
proof -
  from deserialize_serialized [OF assms(1-4)] obtain content a'
    where c: "serializeAccount ordI ordP (Some a) = Inr content"
      and d: "deserializeAccount content = Inr a'"
      and a': "a' = \<lparr>ID = ID a, Type = Type a, InitialBalance = InitialBalance a,
                  CurrentBalance = CurrentBalance a,
                  LastUpdate = Unix 0 (UnixNano (LastUpdate a)),
                  ExpirationDate =
                    (if IsZero (ExpirationDate a) then zeroTime
                     else Unix 0 (UnixNano (ExpirationDate a))),
                  Invoices = Invoices a,
                  Payments = map_option (map_option readBack) \<circ> Payments a\<rparr>"
    by blast
  from assms(1) have vl: "valid_time (LastUpdate a)" and ve: "valid_time (ExpirationDate a)"
    by (simp_all add: wf_account_def)
  from vl assms(6) have lu: "LastUpdate a' = LastUpdate a"
    by (simp add: a' Unix_UnixNano)
  from ve assms(7) have ex: "ExpirationDate a' = ExpirationDate a"
    by (auto simp: a' IsZero_eq Unix_UnixNano)
  have pm: "Payments a' = Payments a"
    by (simp add: a' readBack_map_id [OF assms(4,5)])
  from c d lu ex pm show ?thesis by (simp add: a')
qed

theorem serialize_deserialize_roundtrip_witness:
  "wf_account exampleAccount \<and> hashOrder [exampleInvoice] (Invoices exampleAccount) \<and>
   entryOrder [(examplePayment, Some \<lparr>Status = 2, FullAmount = 400\<rparr>)] (Payments exampleAccount) \<and>
   no_nil_entries (Payments exampleAccount) \<and> status_in_byte (Payments exampleAccount) \<and>
   nanos_in_int64 (LastUpdate exampleAccount) \<and>
   nanos_in_int64 (ExpirationDate exampleAccount) \<and>
   (\<exists>content a'.
      serializeAccount [exampleInvoice] [(examplePayment, Some \<lparr>Status = 2, FullAmount = 400\<rparr>)]
        (Some exampleAccount) = Inr content \<and>
      deserializeAccount content = Inr a' \<and>
      ID a' = ID exampleAccount \<and> Type a' = Type exampleAccount \<and>
      InitialBalance a' = InitialBalance exampleAccount \<and>
      CurrentBalance a' = CurrentBalance exampleAccount \<and>
      LastUpdate a' = LastUpdate exampleAccount \<and>
      ExpirationDate a' = ExpirationDate exampleAccount \<and>
      Invoices a' = Invoices exampleAccount \<and> Payments a' = Payments exampleAccount)"
proof -
  have "IsZero (ExpirationDate exampleAccount) \<or> nanos_in_int64 (ExpirationDate exampleAccount)"
    using exampleAccount_expiration by simp
  from serialize_deserialize_roundtrip
    [OF exampleAccount_wf exampleAccount_invoices exampleAccount_payments
      exampleAccount_no_nil exampleAccount_status exampleAccount_lastUpdate this]
  show ?thesis
    using exampleAccount_wf exampleAccount_invoices exampleAccount_payments
      exampleAccount_no_nil exampleAccount_status exampleAccount_lastUpdate
      exampleAccount_expiration
    by blast
qed

text \<open>
  C1, as stated, fails. The account \<open>oddAccount\<close> has a payment of status 256, the
  zero time as its last update, and expires in the year 2300. \<^verbatim>\<open>serializeAccount\<close>
  succeeds on it, and \<^verbatim>\<open>deserializeAccount\<close> returns an account whose payment has
  status 0 (the byte written for 256), whose last update is in the year 1754 and
  whose expiration date is in the year 1715 (the nanoseconds wrapped around in the
  \<^verbatim>\<open>int64\<close>).
\<close>

theorem serialize_deserialize_counterexample:
  "\<exists>content. serializeAccount [] [(examplePayment, Some \<lparr>Status = 256, FullAmount = 400\<rparr>)]
       (Some oddAccount) = Inr content \<and>
     deserializeAccount content =
       Inr (oddAccount\<lparr>LastUpdate := \<lparr>sec = 55340232221, nsec = 128654848\<rparr>,
              ExpirationDate := \<lparr>sec = 54102644726, nsec = 290448384\<rparr>,
              Payments := [examplePayment \<mapsto> Some \<lparr>Status = 0, FullAmount = 400\<rparr>]\<rparr>) \<and>
     LastUpdate oddAccount = \<lparr>sec = 0, nsec = 0\<rparr> \<and>
     ExpirationDate oddAccount = \<lparr>sec = 72549388800, nsec = 0\<rparr> \<and>
     Payments oddAccount = [examplePayment \<mapsto> Some \<lparr>Status = 256, FullAmount = 400\<rparr>]"
proof -
  have z: "\<not> IsZero (ExpirationDate oddAccount)" by (simp add: oddAccount_def IsZero_def)
  from deserialize_serialized
    [OF oddAccount_wf oddAccount_invoices oddAccount_payments oddAccount_no_nil]
  obtain content
    where c: "serializeAccount [] [(examplePayment, Some \<lparr>Status = 256, FullAmount = 400\<rparr>)]
                (Some oddAccount) = Inr content"
      and d: "deserializeAccount content =
                Inr \<lparr>ID = ID oddAccount, Type = Type oddAccount,
                     InitialBalance = InitialBalance oddAccount,
                     CurrentBalance = CurrentBalance oddAccount,
                     LastUpdate = \<lparr>sec = 55340232221, nsec = 128654848\<rparr>,
                     ExpirationDate = \<lparr>sec = 54102644726, nsec = 290448384\<rparr>,
                     Invoices = Invoices oddAccount,
                     Payments = [examplePayment \<mapsto> Some \<lparr>Status = 0, FullAmount = 400\<rparr>]\<rparr>"
    by (auto simp: z oddAccount_Unix oddAccount_readBack oddAccount_lastUpdate)
  have e: "\<lparr>ID = ID oddAccount, Type = Type oddAccount,
             InitialBalance = InitialBalance oddAccount,
             CurrentBalance = CurrentBalance oddAccount,
             LastUpdate = \<lparr>sec = 55340232221, nsec = 128654848\<rparr>,
             ExpirationDate = \<lparr>sec = 54102644726, nsec = 290448384\<rparr>,
             Invoices = Invoices oddAccount,
             Payments = [examplePayment \<mapsto> Some \<lparr>Status = 0, FullAmount = 400\<rparr>]\<rparr> =
           oddAccount\<lparr>LastUpdate := \<lparr>sec = 55340232221, nsec = 128654848\<rparr>,
             ExpirationDate := \<lparr>sec = 54102644726, nsec = 290448384\<rparr>,
             Payments := [examplePayment \<mapsto> Some \<lparr>Status = 0, FullAmount = 400\<rparr>]\<rparr>"
    by simp
  have f: "LastUpdate oddAccount = \<lparr>sec = 0, nsec = 0\<rparr>"
    "ExpirationDate oddAccount = \<lparr>sec = 72549388800, nsec = 0\<rparr>"
    "Payments oddAccount = [examplePayment \<mapsto> Some \<lparr>Status = 256, FullAmount = 400\<rparr>]"
    by (simp_all add: oddAccount_def)
  from c d show ?thesis unfolding e using f by blast
qed

text \<open>
  C5. For every \<^verbatim>\<open>int64\<close> value \<open>x\<close>, negative ones included, the conversion
  \<^verbatim>\<open>uint64(x)\<close> of \<^verbatim>\<open>serializeAccount\<close> followed by the conversion
  \<^verbatim>\<open>int64(u)\<close> of \<^verbatim>\<open>deserializeAccount\<close> gives \<open>x\<close> back; and for every account
  that \<^verbatim>\<open>serializeAccount\<close> encodes, \<^verbatim>\<open>deserializeAccount\<close> of the encoding
  returns an account with the same CurrentBalance.
\<close>

theorem current_balance_preserved:
  assumes "in_int64 x"
    and "wf_account a" "hashOrder ordI (Invoices a)" "entryOrder ordP (Payments a)"
    and "no_nil_entries (Payments a)"
  shows "int64_of_uint64 (uint64_of_int64 x) = x \<and>
         (\<exists>content a'. serializeAccount ordI ordP (Some a) = Inr content \<and>
            deserializeAccount content = Inr a' \<and> CurrentBalance a' = CurrentBalance a)"
proof
  show "int64_of_uint64 (uint64_of_int64 x) = x" using assms(1) by (rule int64_roundtrip)
next
  from deserialize_serialized [OF assms(2-5)]
  show "\<exists>content a'. serializeAccount ordI ordP (Some a) = Inr content \<and>
          deserializeAccount content = Inr a' \<and> CurrentBalance a' = CurrentBalance a"
    by auto
qed

theorem current_balance_preserved_witness:
  "in_int64 (- 5) \<and> wf_account exampleAccount \<and>
   hashOrder [exampleInvoice] (Invoices exampleAccount) \<and>
   entryOrder [(examplePayment, Some \<lparr>Status = 2, FullAmount = 400\<rparr>)] (Payments exampleAccount) \<and>
   no_nil_entries (Payments exampleAccount) \<and>
   int64_of_uint64 (uint64_of_int64 (- 5)) = - 5 \<and>
   (\<exists>content a'.
      serializeAccount [exampleInvoice] [(examplePayment, Some \<lparr>Status = 2, FullAmount = 400\<rparr>)]
        (Some exampleAccount) = Inr content \<and>
      deserializeAccount content = Inr a' \<and> CurrentBalance a' = - 5)"
proof -
  have x: "in_int64 (- 5)" by (simp add: in_int64_def)
  have b: "CurrentBalance exampleAccount = - 5" by (simp add: exampleAccount_def)
  from current_balance_preserved
    [OF x exampleAccount_wf exampleAccount_invoices exampleAccount_payments
      exampleAccount_no_nil]
  show ?thesis
    using x exampleAccount_wf exampleAccount_invoices exampleAccount_payments
      exampleAccount_no_nil
    unfolding b by blast
qed

section \<open>The expiration date is optional in the stream\<close>

text \<open>
  C2. The records that \<^verbatim>\<open>serializeAccount\<close> puts into the stream include the
  expiration-date record if and only if the account's ExpirationDate is not the zero
  time, and so does the stream it writes, as \<^verbatim>\<open>DecodeWithParsedTypes\<close> reads it
  back. For every byte string that the stream of \<^verbatim>\<open>deserializeAccount\<close> decodes,
  the account returned has the zero ExpirationDate if and only if the expiration-date
  record is absent from the decoded stream: a record that is present, even with the
  value 0, gives a time that is not the zero time.
\<close>

theorem expiration_record_optional:
  assumes "wf_account a" "hashOrder ordI (Invoices a)" "entryOrder ordP (Payments a)"
    and "no_nil_entries (Payments a)"
    and "DecodeWithParsedTypes deserializeRecords deserializeVars content = Inr (pt, s)"
  shows "(typeExpirationDate \<in> recTyp ` set (serializeRecords ordI ordP a) \<longleftrightarrow>
            \<not> IsZero (ExpirationDate a)) \<and>
         (\<exists>bs pt0 s0. serializeAccount ordI ordP (Some a) = Inr bs \<and>
            DecodeWithParsedTypes deserializeRecords deserializeVars bs = Inr (pt0, s0) \<and>
            (typeExpirationDate \<in> dom pt0 \<longleftrightarrow> \<not> IsZero (ExpirationDate a))) \<and>
         (\<exists>a'. deserializeAccount content = Inr a' \<and>
            (IsZero (ExpirationDate a') \<longleftrightarrow> typeExpirationDate \<notin> dom pt))"
proof (intro conjI)
  show "typeExpirationDate \<in> recTyp ` set (serializeRecords ordI ordP a) \<longleftrightarrow>
          \<not> IsZero (ExpirationDate a)"
    by (rule serializeRecords_expiration)
next
  from serialize_decode [OF assms(1-4)] obtain bs pt0
    where b: "serializeAccount ordI ordP (Some a) = Inr bs"
      and d: "DecodeWithParsedTypes deserializeRecords deserializeVars bs =
                Inr (pt0, decodedVars a)"
      and e: "pt0 typeExpirationDate = Some None \<longleftrightarrow> \<not> IsZero (ExpirationDate a)"
    by blast
  from d have "nilOrAbsent pt0" by (rule DecodeWithParsedTypes_nilOrAbsent)
  with e have "typeExpirationDate \<in> dom pt0 \<longleftrightarrow> \<not> IsZero (ExpirationDate a)"
    by (auto simp: nilOrAbsent_def)
  with b d show "\<exists>bs pt0 s0. serializeAccount ordI ordP (Some a) = Inr bs \<and>
            DecodeWithParsedTypes deserializeRecords deserializeVars bs = Inr (pt0, s0) \<and>
            (typeExpirationDate \<in> dom pt0 \<longleftrightarrow> \<not> IsZero (ExpirationDate a))"
    by blast
next
  show "\<exists>a'. deserializeAccount content = Inr a' \<and>
            (IsZero (ExpirationDate a') \<longleftrightarrow> typeExpirationDate \<notin> dom pt)"
    using assms(5) by (rule deserialize_expiration)
qed

theorem expiration_record_optional_witness:
  "wf_account exampleAccount \<and> hashOrder [exampleInvoice] (Invoices exampleAccount) \<and>
   entryOrder [(examplePayment, Some \<lparr>Status = 2, FullAmount = 400\<rparr>)] (Payments exampleAccount) \<and>
   no_nil_entries (Payments exampleAccount) \<and>
   DecodeWithParsedTypes deserializeRecords deserializeVars
     (WriteVarInt typeExpirationDate @ WriteVarInt 8 @ EUint64 0) =
     Inr ([typeExpirationDate \<mapsto> None], deserializeVars) \<and>
   typeExpirationDate \<in> recTyp ` set (serializeRecords [exampleInvoice]
     [(examplePayment, Some \<lparr>Status = 2, FullAmount = 400\<rparr>)] exampleAccount) \<and>
   \<not> IsZero (ExpirationDate exampleAccount) \<and>
   (\<exists>a'. deserializeAccount (WriteVarInt typeExpirationDate @ WriteVarInt 8 @ EUint64 0) =
           Inr a' \<and> \<not> IsZero (ExpirationDate a'))"
proof -
  have z: "\<not> IsZero (ExpirationDate exampleAccount)"
    by (simp add: exampleAccount_def IsZero_def)
  from expiration_record_optional
    [OF exampleAccount_wf exampleAccount_invoices exampleAccount_payments
      exampleAccount_no_nil decode_expiration_only]
  show ?thesis
    using exampleAccount_wf exampleAccount_invoices exampleAccount_payments
      exampleAccount_no_nil decode_expiration_only z
    by simp
qed

section \<open>The numeric codec\<close>

text \<open>
  C6. For every \<^verbatim>\<open>uint64\<close> value \<open>u\<close>, decoding the encoding of \<open>u\<close> returns
  \<open>u\<close>: \<open>StrToUint64 (Uint64ToStr u) = u\<close>.
\<close>

theorem numeric_codec_roundtrip: "StrToUint64 (Uint64ToStr u) = Inr u"
  by (rule StrToUint64_Uint64ToStr)

text \<open>
  C7. \<open>StrToUint64\<close> fails with the format error on every string \<open>s\<close> that has
  not exactly the fixed width or contains a character that is no decimal digit; and a
  string \<open>t\<close> on which it succeeds has the fixed width, consists of decimal digits
  and is the encoding of the value returned.
\<close>

theorem numeric_codec_rejects_malformed:
  assumes "length s \<noteq> codecWidth \<or> \<not> list_all isDigit s"
    and "StrToUint64 t = Inr u"
  shows "StrToUint64 s = Inl FormatError \<and>
         length t = codecWidth \<and> list_all isDigit t \<and> t = Uint64ToStr u"
  using StrToUint64_malformed [OF assms(1)] StrToUint64_Inr [OF assms(2)] by blast

theorem numeric_codec_rejects_malformed_witness:
  "length ''12a'' \<noteq> codecWidth \<and> StrToUint64 (Uint64ToStr 42) = Inr 42 \<and>
   StrToUint64 ''12a'' = Inl FormatError \<and>
   length (Uint64ToStr 42) = codecWidth \<and> list_all isDigit (Uint64ToStr 42)"
proof -
  have a: "length ''12a'' \<noteq> codecWidth" by (simp add: codecWidth_def)
  then have b: "length ''12a'' \<noteq> codecWidth \<or> \<not> list_all isDigit ''12a''" by simp
  have c: "StrToUint64 (Uint64ToStr 42) = Inr 42" by (rule StrToUint64_Uint64ToStr)
  from numeric_codec_rejects_malformed [OF b c] a c show ?thesis by simp
qed

section \<open>litcli: the codec around the conversion call\<close>

text \<open>
  C8. Every run of \<^verbatim>\<open>privacyMapConvertUint64\<close>, whatever the codec functions, the
  connection and the server's answer are. When the connection fails or the session id
  is not hexadecimal, nothing is sent or printed and that error is returned.
  Otherwise exactly one request is sent to \<^verbatim>\<open>PrivacyMapConversion\<close>, with the decoded
  session id, the direction flag and, as Input, the encoding \<open>toStr\<close> of the
  \<^verbatim>\<open>uint64\<close> given on the command line. When the call fails, its error is returned
  and nothing is printed. When it answers, \<open>toUint64\<close> is applied to the Output of
  the response: if that fails, its error is returned and nothing is printed; if it
  gives a value, exactly the decimal form of that value is printed, after the request,
  and no error is returned.
\<close>

theorem privacyMapConvertUint64_codec:
  "(\<forall>err. connectClient ctx = Inl err \<longrightarrow>
      privacyMapConvertUint64 toStr toUint64 connectClient ctx = ([], Some err)) \<and>
   (\<forall>client err. connectClient ctx = Inr client \<and> DecodeString (session_id ctx) = Inl err \<longrightarrow>
      privacyMapConvertUint64 toStr toUint64 connectClient ctx = ([], Some err)) \<and>
   (\<forall>client sid err.
      connectClient ctx = Inr client \<and> DecodeString (session_id ctx) = Inr sid \<and>
      client \<lparr>SessionId = sid, RealToPseudo = realtopseudo ctx, Input = toStr (input ctx)\<rparr> =
        Inl err \<longrightarrow>
      privacyMapConvertUint64 toStr toUint64 connectClient ctx =
        ([Sent \<lparr>SessionId = sid, RealToPseudo = realtopseudo ctx, Input = toStr (input ctx)\<rparr>],
         Some err)) \<and>
   (\<forall>client sid resp err.
      connectClient ctx = Inr client \<and> DecodeString (session_id ctx) = Inr sid \<and>
      client \<lparr>SessionId = sid, RealToPseudo = realtopseudo ctx, Input = toStr (input ctx)\<rparr> =
        Inr resp \<and>
      toUint64 (Output resp) = Inl err \<longrightarrow>
      privacyMapConvertUint64 toStr toUint64 connectClient ctx =
        ([Sent \<lparr>SessionId = sid, RealToPseudo = realtopseudo ctx, Input = toStr (input ctx)\<rparr>],
         Some err)) \<and>
   (\<forall>client sid resp output.
      connectClient ctx = Inr client \<and> DecodeString (session_id ctx) = Inr sid \<and>
      client \<lparr>SessionId = sid, RealToPseudo = realtopseudo ctx, Input = toStr (input ctx)\<rparr> =
        Inr resp \<and>
      toUint64 (Output resp) = Inr output \<longrightarrow>
      privacyMapConvertUint64 toStr toUint64 connectClient ctx =
        ([Sent \<lparr>SessionId = sid, RealToPseudo = realtopseudo ctx, Input = toStr (input ctx)\<rparr>,
          Printed \<lparr>Output = Sprintf_d output\<rparr>],
         None))"
  by (simp add: privacyMapConvertUint64_def Let_def)

theorem privacyMapConvertUint64_codec_witness:
  "DecodeString ''0a'' = Inr [10] \<and> StrToUint64 (Uint64ToStr 7) = Inr 7 \<and>
   privacyMapConvertUint64 Uint64ToStr StrToUint64
     (\<lambda>ctx. Inr (\<lambda>req. Inr \<lparr>Output = Uint64ToStr 7\<rparr>))
     \<lparr>session_id = ''0a'', realtopseudo = True, input = 42\<rparr> =
     ([Sent \<lparr>SessionId = [10], RealToPseudo = True, Input = Uint64ToStr 42\<rparr>,
       Printed \<lparr>Output = ''7''\<rparr>], None)"
proof -
  let ?ctx = "\<lparr>session_id = ''0a'', realtopseudo = True, input = 42\<rparr>"
  let ?resp = "\<lparr>Output = Uint64ToStr 7\<rparr>"
  let ?client = "(\<lambda>req. Inr ?resp) :: FirewallClient"
  let ?connect = "\<lambda>ctx :: Context. (Inr ?client :: cli_error + FirewallClient)"
  have h: "DecodeString (session_id ?ctx) = Inr [10]"
    by (simp add: DecodeString_0a del: DecodeString.simps)
  have d: "StrToUint64 (Output ?resp) = Inr 7" by (simp add: StrToUint64_Uint64ToStr)
  have "?connect ?ctx = Inr ?client \<and> DecodeString (session_id ?ctx) = Inr [10] \<and>
        ?client \<lparr>SessionId = [10], RealToPseudo = realtopseudo ?ctx,
                  Input = Uint64ToStr (input ?ctx)\<rparr> = Inr ?resp \<and>
        StrToUint64 (Output ?resp) = Inr 7"
    using h d by (simp del: DecodeString.simps)
  with privacyMapConvertUint64_codec [of ?connect ?ctx Uint64ToStr StrToUint64]
  have "privacyMapConvertUint64 Uint64ToStr StrToUint64 ?connect ?ctx =
          ([Sent \<lparr>SessionId = [10], RealToPseudo = realtopseudo ?ctx,
                   Input = Uint64ToStr (input ?ctx)\<rparr>,
            Printed \<lparr>Output = Sprintf_d 7\<rparr>], None)"
    by blast
  then show ?thesis
    using DecodeString_0a StrToUint64_Uint64ToStr [of 7]
    by (simp add: decimal_7 del: DecodeString.simps)
qed

section \<open>The privacy mapper is a bijection on a session\<close>

text \<open>
  C9. In every state that the operations of the mapper reach, with a source of
  pseudo values that returns values not in use, for every session and real values
  \<open>v1 \<noteq> v2\<close>: \<open>realToPseudo\<close> of \<open>v1\<close> and then of \<open>v2\<close> returns two
  different pseudo values; \<open>pseudoToReal\<close> of each returns the real value it was
  issued for, right after the first call and after both; and asking again returns the
  same pseudo values and leaves the store as it is.
\<close>

theorem privacy_mapping_bijective:
  assumes "freshGen gen" "reachable gen m" "v1 \<noteq> v2"
    and "realToPseudo gen m sid v1 = (p1, m1)" "realToPseudo gen m1 sid v2 = (p2, m2)"
  shows "p1 \<noteq> p2 \<and> pseudoToReal m1 sid p1 = Inr v1 \<and>
         pseudoToReal m2 sid p1 = Inr v1 \<and> pseudoToReal m2 sid p2 = Inr v2 \<and>
         realToPseudo gen m2 sid v1 = (p1, m2) \<and> realToPseudo gen m2 sid v2 = (p2, m2)"
proof -
  from assms(4) have e1: "p1 = fst (realToPseudo gen m sid v1)"
    "m1 = snd (realToPseudo gen m sid v1)" by simp_all
  from assms(5) have e2: "p2 = fst (realToPseudo gen m1 sid v2)"
    "m2 = snd (realToPseudo gen m1 sid v2)" by simp_all
  from reachable_ok [OF assms(2,1)] have ok1: "mapper_ok m1"
    unfolding e1 by (rule realToPseudo_ok [OF assms(1)])
  then have ok2: "mapper_ok m2" unfolding e2 by (rule realToPseudo_ok [OF assms(1)])
  have s1: "realToPseudoPairs (namespaceOf m1 sid) v1 = Some p1"
    unfolding e1 by (rule realToPseudo_stored)
  have s2: "realToPseudoPairs (namespaceOf m2 sid) v2 = Some p2"
    unfolding e2 by (rule realToPseudo_stored)
  have s12: "realToPseudoPairs (namespaceOf m2 sid) v1 = Some p1"
    unfolding e2(2) using s1 by (rule realToPseudo_keeps)
  have "p1 \<noteq> p2" using ok2 s12 s2 assms(3) by (rule mapper_ok_injective)
  moreover have "pseudoToReal m1 sid p1 = Inr v1" using ok1 s1 by (rule mapper_ok_roundtrip)
  moreover have "pseudoToReal m2 sid p1 = Inr v1" using ok2 s12 by (rule mapper_ok_roundtrip)
  moreover have "pseudoToReal m2 sid p2 = Inr v2" using ok2 s2 by (rule mapper_ok_roundtrip)
  moreover have "realToPseudo gen m2 sid v1 = (p1, m2)" using s12 by (simp add: realToPseudo_def)
  moreover have "realToPseudo gen m2 sid v2 = (p2, m2)" using s2 by (simp add: realToPseudo_def)
  ultimately show ?thesis by simp
qed

theorem privacy_mapping_bijective_witness:
  "(let m1 = snd (realToPseudo longerGen Map.empty [1] ''alice'');
        m2 = snd (realToPseudo longerGen m1 [1] ''bob'')
    in freshGen longerGen \<and> reachable longerGen Map.empty \<and> ''alice'' \<noteq> ''bob'' \<and>
       realToPseudo longerGen Map.empty [1] ''alice'' = (''p'', m1) \<and>
       realToPseudo longerGen m1 [1] ''bob'' = (''pp'', m2) \<and>
       ''p'' \<noteq> ''pp'' \<and> pseudoToReal m1 [1] ''p'' = Inr ''alice'' \<and>
       pseudoToReal m2 [1] ''p'' = Inr ''alice'' \<and> pseudoToReal m2 [1] ''pp'' = Inr ''bob'' \<and>
       realToPseudo longerGen m2 [1] ''alice'' = (''p'', m2) \<and>
       realToPseudo longerGen m2 [1] ''bob'' = (''pp'', m2))"
proof -
  define m1 where "m1 = snd (realToPseudo longerGen Map.empty [1] ''alice'')"
  define m2 where "m2 = snd (realToPseudo longerGen m1 [1] ''bob'')"
  have r: "reachable longerGen Map.empty" by (rule reachable.initial)
  have d: "''alice'' \<noteq> ''bob''" by simp
  have a: "realToPseudo longerGen Map.empty [1] ''alice'' = (''p'', m1)"
    by (simp add: m1_def realToPseudo_def namespaceOf_def emptyNamespace_def longerGen_values
          Let_def)
  have m1: "m1 = [[1] \<mapsto> \<lparr>realToPseudoPairs = [''alice'' \<mapsto> ''p''],
                             pseudoToRealPairs = [''p'' \<mapsto> ''alice'']\<rparr>]"
    by (simp add: m1_def realToPseudo_def namespaceOf_def emptyNamespace_def longerGen_values
          Let_def)
  have b: "realToPseudo longerGen m1 [1] ''bob'' = (''pp'', m2)"
    by (simp add: m2_def m1 realToPseudo_def namespaceOf_def longerGen_values Let_def)
  from privacy_mapping_bijective [OF longerGen_fresh r d a b] longerGen_fresh r a b
  show ?thesis by (simp add: m1_def [symmetric] m2_def [symmetric])
qed

section \<open>The account ledger: a reservation never overdraws\<close>

text \<open>
  C10. For every ledger, every account in it and every time: \<open>reservePayment\<close> with
  an amount greater than the current balance of the account returns a declined
  result and leaves the ledger as it is; and whenever \<open>reservePayment\<close> succeeds,
  the amount was not above the current balance, the balance of the account afterwards
  is the one before less exactly the amount, and it is not below zero.
\<close>

theorem reservePayment_never_overdraws:
  assumes "ledger accountID = Some account"
  shows "(CurrentBalance account < big \<longrightarrow>
            reservePayment now ledger accountID hash big = Inr (ReservationDeclined, ledger)) \<and>
         (\<forall>ledger'.
            reservePayment now ledger accountID hash amount = Inr (ReservationOk, ledger') \<longrightarrow>
            amount \<le> CurrentBalance account \<and>
            (\<exists>updated. ledger' accountID = Some updated \<and>
               CurrentBalance updated = CurrentBalance account - amount \<and>
               0 \<le> CurrentBalance updated))"
  using assms by (auto simp: reservePayment_def split: if_splits)

theorem reservePayment_never_overdraws_witness:
  "[ID exampleAccount \<mapsto> exampleAccount\<lparr>CurrentBalance := 600\<rparr>] (ID exampleAccount) =
     Some (exampleAccount\<lparr>CurrentBalance := 600\<rparr>) \<and>
   CurrentBalance (exampleAccount\<lparr>CurrentBalance := 600\<rparr>) < 700 \<and>
   reservePayment \<lparr>sec = 63835596800, nsec = 6\<rparr>
     [ID exampleAccount \<mapsto> exampleAccount\<lparr>CurrentBalance := 600\<rparr>]
     (ID exampleAccount) exampleInvoice 400 =
     Inr (ReservationOk,
          [ID exampleAccount \<mapsto> exampleAccount\<lparr>CurrentBalance := 200,
             Payments := (Payments exampleAccount)(exampleInvoice \<mapsto>
               Some \<lparr>Status = Payment_IN_FLIGHT, FullAmount = 400\<rparr>),
             LastUpdate := \<lparr>sec = 63835596800, nsec = 6\<rparr>\<rparr>]) \<and>
   reservePayment \<lparr>sec = 63835596800, nsec = 6\<rparr>
     [ID exampleAccount \<mapsto> exampleAccount\<lparr>CurrentBalance := 600\<rparr>]
     (ID exampleAccount) exampleInvoice 700 =
     Inr (ReservationDeclined, [ID exampleAccount \<mapsto> exampleAccount\<lparr>CurrentBalance := 600\<rparr>]) \<and>
   (\<exists>updated.
      [ID exampleAccount \<mapsto> exampleAccount\<lparr>CurrentBalance := 200,
         Payments := (Payments exampleAccount)(exampleInvoice \<mapsto>
           Some \<lparr>Status = Payment_IN_FLIGHT, FullAmount = 400\<rparr>),
         LastUpdate := \<lparr>sec = 63835596800, nsec = 6\<rparr>\<rparr>] (ID exampleAccount) = Some updated \<and>
      CurrentBalance updated = 200 \<and> 0 \<le> CurrentBalance updated)"
proof -
  let ?a = "exampleAccount\<lparr>CurrentBalance := 600\<rparr>"
  let ?now = "\<lparr>sec = 63835596800, nsec = 6\<rparr>"
  let ?l = "[ID exampleAccount \<mapsto> ?a]"
  let ?l' = "[ID exampleAccount \<mapsto> exampleAccount\<lparr>CurrentBalance := 200,
         Payments := (Payments exampleAccount)(exampleInvoice \<mapsto>
           Some \<lparr>Status = Payment_IN_FLIGHT, FullAmount = 400\<rparr>),
         LastUpdate := ?now\<rparr>]"
  have 1: "?l (ID exampleAccount) = Some ?a" by simp
  have 2: "CurrentBalance ?a < 700" by simp
  have e: "\<not> expired ?now ?a"
    by (simp add: expired_def exampleAccount_def IsZero_def before_def)
  have 3: "reservePayment ?now ?l (ID exampleAccount) exampleInvoice 400 = Inr (ReservationOk, ?l')"
    using e by (simp add: reservePayment_def)
  note t = reservePayment_never_overdraws
    [where ledger = ?l and accountID = "ID exampleAccount" and account = ?a and big = 700
       and now = ?now and hash = exampleInvoice and amount = 400, OF 1]
  from t 2 have 4: "reservePayment ?now ?l (ID exampleAccount) exampleInvoice 700 =
      Inr (ReservationDeclined, ?l)" by blast
  from t 3 have 5: "\<exists>updated. ?l' (ID exampleAccount) = Some updated \<and>
      CurrentBalance updated = CurrentBalance ?a - 400 \<and> 0 \<le> CurrentBalance updated"
    by blast
  from 1 2 3 4 5 show ?thesis by simp
qed

end
